theory Spec2Isabelle
  imports Complex_Main "HOL-Library.AList" "HOL-Library.Sublist"
begin

section \<open>Values as the running program has them\<close>

text \<open>
  TypeScript's types are erased before the program runs. The expense list of a request
  body and the answer of the language model are both results of \<open>JSON.parse\<close>, typed
  \<open>any\<close>, so a field of an expense holds whatever JSON value was sent. Values are
  therefore modelled as JSON values, with \<open>undefined\<close> for a property that is read but
  absent. Numbers are carried as reals: the code never computes with them.
  Strings are byte lists (UTF-8).

  An array or an object is a reference at run time: \<open>===\<close> compares two of them by
  identity, not by content, and copying a property copies the reference. Each array
  and object value therefore carries its reference, the first argument of \<open>JArr\<close> and
  \<open>JObj\<close>. \<open>JSON.parse\<close> gives every array and object it builds a reference of its
  own. The code never writes into an array or object that is the value of a property,
  so a reference stands for the same content throughout. The reference \<open>0\<close> is used
  for values that are only built to be serialised, and for what is read back from
  JSON text.
\<close>

type_synonym ref = nat

datatype json =
    JUndefined
  | JNull
  | JBool bool
  | JNum real
  | JStr string
  | JArr ref "json list"
  | JObj ref "(string \<times> json) list"

text \<open>
  An object is its list of own properties, in insertion order, with distinct keys.
  (JavaScript enumerates keys that look like array indices first; here they stay where
  they were inserted. Nothing below depends on the order of the keys.)
\<close>

type_synonym obj = "(string \<times> json) list"

text \<open>\<open>Expense\<close> and \<open>BudgetMap\<close> of \<open>expenseStore.ts\<close>: objects at run time.\<close>

type_synonym Expense = obj
type_synonym BudgetMap = obj

text \<open>Reading a property of an object: \<open>o.k\<close>, \<open>undefined\<close> when absent.\<close>

definition get :: "obj \<Rightarrow> string \<Rightarrow> json" where
  "get ob k = (case map_of ob k of None \<Rightarrow> JUndefined | Some v \<Rightarrow> v)"

text \<open>
  Reading a property of a value that is neither \<open>null\<close> nor \<open>undefined\<close> (on those the
  read throws, which the callers below check first). None of the property names the
  code reads exists on the prototype of a string, number, boolean or array.
\<close>

definition read_prop :: "json \<Rightarrow> string \<Rightarrow> json" where
  "read_prop v k = (case v of JObj r ob \<Rightarrow> get ob k | _ \<Rightarrow> JUndefined)"

definition nullish :: "json \<Rightarrow> bool" where
  "nullish v = (v = JUndefined \<or> v = JNull)"

text \<open>JavaScript's truthiness, as used by \<open>!x\<close>, \<open>x && y\<close> and \<open>x || y\<close>.\<close>

fun truthy :: "json \<Rightarrow> bool" where
  "truthy JUndefined = False"
| "truthy JNull = False"
| "truthy (JBool b) = b"
| "truthy (JNum n) = (n \<noteq> 0)"
| "truthy (JStr s) = (s \<noteq> [])"
| "truthy (JArr r xs) = True"
| "truthy (JObj r ob) = True"

text \<open>
  \<open>a === b\<close>. Primitives compare by value; arrays and objects compare by reference,
  and an array or object equals nothing of another kind. (\<open>NaN\<close>, the one value that
  differs from itself, cannot come out of \<open>JSON.parse\<close>.)
\<close>

fun strict_eq :: "json \<Rightarrow> json \<Rightarrow> bool" where
  "strict_eq (JArr r xs) (JArr r' ys) = (r = r')"
| "strict_eq (JArr r xs) b = False"
| "strict_eq (JObj r ob) (JObj r' ob') = (r = r')"
| "strict_eq (JObj r ob) b = False"
| "strict_eq a b = (a = b)"

text \<open>
  \<open>Number.prototype.toString\<close> on a natural number: its decimal digits.
  \<open>digit_char\<close> is only applied to numbers below ten.
\<close>

definition digit_char :: "nat \<Rightarrow> char" where
  "digit_char n = ''0123456789'' ! n"

fun toString_nat :: "nat \<Rightarrow> string" where
  "toString_nat n =
     (if n < 10 then [digit_char n] else toString_nat (n div 10) @ [digit_char (n mod 10)])"

declare toString_nat.simps [simp del]

text \<open>
  The own enumerable properties that \<open>{...v}\<close> copies: those of an object, the indexed
  elements of an array, the indexed characters of a string (one per byte here, exact
  for ASCII), and nothing for \<open>null\<close>, \<open>undefined\<close>, numbers and booleans.
\<close>

fun own_props :: "json \<Rightarrow> obj" where
  "own_props (JObj r ob) = ob"
| "own_props (JArr r xs) = zip (map toString_nat [0..<length xs]) xs"
| "own_props (JStr s) = zip (map toString_nat [0..<length s]) (map (\<lambda>c. JStr [c]) s)"
| "own_props v = []"

text \<open>
  \<open>{ ...a, ...b }\<close>: the properties of \<open>a\<close>, each overwritten in place by \<open>b\<close>'s value
  for the same key, followed by the keys only \<open>b\<close> has.
\<close>

definition spread :: "obj \<Rightarrow> obj \<Rightarrow> obj" where
  "spread a b =
     map (\<lambda>(k, v). (k, case map_of b k of Some v' \<Rightarrow> v' | None \<Rightarrow> v)) a
     @ filter (\<lambda>(k, v). k \<notin> set (map fst a)) b"

text \<open>
  \<open>o[k] = v\<close> on an object created by an object literal: the property is overwritten
  in place or appended. The key \<open>__proto__\<close> is the exception: unless the object has
  an own property of that name, the assignment reaches the accessor of
  \<open>Object.prototype\<close> and creates no own property.
\<close>

definition assign_prop :: "obj \<Rightarrow> string \<Rightarrow> json \<Rightarrow> obj" where
  "assign_prop ob k v =
     (if k = ''__proto__'' \<and> k \<notin> set (map fst ob) then ob else AList.update k v ob)"

text \<open>
  \<open>String.prototype.toLowerCase\<close> on the ASCII letters. A byte of a non-ASCII character
  is left as it is; no such character lowers to a letter of \<open>total\<close>, the only string the
  result is compared with.
\<close>

definition toLowerCase_char :: "char \<Rightarrow> char" where
  "toLowerCase_char c =
     (if 65 \<le> (of_char c :: nat) \<and> (of_char c :: nat) \<le> 90
      then char_of ((of_char c :: nat) + 32) else c)"

definition toLowerCase :: "string \<Rightarrow> string" where
  "toLowerCase s = map toLowerCase_char s"

text \<open>\<open>Array.prototype.findIndex\<close>; \<open>None\<close> stands for the result \<open>-1\<close>.\<close>

fun findIndex :: "('a \<Rightarrow> bool) \<Rightarrow> 'a list \<Rightarrow> nat option" where
  "findIndex P [] = None"
| "findIndex P (x # xs) =
     (if P x then Some 0 else map_option Suc (findIndex P xs))"

section \<open>The in-memory store (\<open>expenseStore.ts\<close>)\<close>

text \<open>The three module-level variables.\<close>

record store =
  expenses :: "Expense list"
  budget :: BudgetMap
  lastTransaction :: "Expense option"

definition initial_store :: store where
  "initial_store =
     \<lparr> expenses = [],
       budget = [(''total'', JNum 50000), (''Food'', JNum 15000), (''Entertainment'', JNum 5000)],
       lastTransaction = None \<rparr>"

definition setExpensesForRequest :: "Expense list \<Rightarrow> store \<Rightarrow> store" where
  "setExpensesForRequest clientExpenses s =
     (case clientExpenses of
        e # _ \<Rightarrow> s\<lparr>expenses := clientExpenses, lastTransaction := Some e\<rparr>
      | [] \<Rightarrow> s\<lparr>expenses := clientExpenses, lastTransaction := None\<rparr>)"

definition addExpense :: "Expense \<Rightarrow> store \<Rightarrow> store" where
  "addExpense expense s = s\<lparr>expenses := expense # expenses s, lastTransaction := Some expense\<rparr>"

definition getExpenses :: "store \<Rightarrow> Expense list" where
  "getExpenses s = expenses s"

text \<open>The test \<open>e.id === id\<close> of \<open>updateExpenseById\<close> and \<open>deleteExpense\<close>.\<close>

definition has_id :: "json \<Rightarrow> Expense \<Rightarrow> bool" where
  "has_id i e = strict_eq (get e ''id'') i"

text \<open>
  \<open>updateExpenseById\<close> returns its boolean together with the new store. The index
  found by \<open>findIndex\<close> is within the list, so both reads of \<open>expenses[expenseIndex]\<close>
  are in range. The updates are spread as the value they are at run time.
\<close>

definition updateExpenseById :: "json \<Rightarrow> json \<Rightarrow> store \<Rightarrow> bool \<times> store" where
  "updateExpenseById i updates s =
     (case findIndex (has_id i) (expenses s) of
        Some expenseIndex \<Rightarrow>
          (let s1 = s\<lparr>expenses :=
                      (expenses s)[expenseIndex :=
                         spread (expenses s ! expenseIndex) (own_props updates)]\<rparr>;
               s2 = (case lastTransaction s1 of
                       Some lt \<Rightarrow>
                         if has_id i lt
                         then s1\<lparr>lastTransaction := Some (expenses s1 ! expenseIndex)\<rparr>
                         else s1
                     | None \<Rightarrow> s1)
           in (True, s2))
      | None \<Rightarrow> (False, s))"

definition getBudget :: "store \<Rightarrow> BudgetMap" where
  "getBudget s = budget s"

definition setBudget :: "BudgetMap \<Rightarrow> store \<Rightarrow> store" where
  "setBudget newBudget s = s\<lparr>budget := newBudget\<rparr>"

definition deleteExpense :: "json \<Rightarrow> store \<Rightarrow> store" where
  "deleteExpense i s = s\<lparr>expenses := filter (\<lambda>e. \<not> has_id i e) (expenses s)\<rparr>"

definition clearExpenses :: "store \<Rightarrow> store" where
  "clearExpenses s = s\<lparr>expenses := [], lastTransaction := None\<rparr>"

definition getLastTransaction :: "store \<Rightarrow> Expense option" where
  "getLastTransaction s = lastTransaction s"

definition updateLastTransaction :: "Expense option \<Rightarrow> store \<Rightarrow> store" where
  "updateLastTransaction expense s = s\<lparr>lastTransaction := expense\<rparr>"

section \<open>Dates (\<open>format\<close> of date-fns with the pattern \<open>dd-MM-yyyy\<close>)\<close>

text \<open>
  What the handlers read from the system clock: \<open>Date.now()\<close> in milliseconds and the
  local calendar date of \<open>new Date()\<close>.
\<close>

record clock =
  Date_now :: nat
  day_of_month :: nat
  month_of_year :: nat
  full_year :: nat

definition padStart :: "nat \<Rightarrow> char \<Rightarrow> string \<Rightarrow> string" where
  "padStart targetLength c s = replicate (targetLength - length s) c @ s"

definition addLeadingZeros :: "nat \<Rightarrow> nat \<Rightarrow> string" where
  "addLeadingZeros n targetLength = padStart targetLength (CHR ''0'') (toString_nat n)"

text \<open>
  The library pads the day and the month to two digits and the year to four, and
  joins them with the literal hyphens of the pattern.
\<close>

definition format_ddMMyyyy :: "clock \<Rightarrow> string" where
  "format_ddMMyyyy clk =
     addLeadingZeros (day_of_month clk) 2 @ ''-'' @
     addLeadingZeros (month_of_year clk) 2 @ ''-'' @
     addLeadingZeros (full_year clk) 4"

definition is_digit :: "char \<Rightarrow> bool" where
  "is_digit c = (48 \<le> (of_char c :: nat) \<and> (of_char c :: nat) \<le> 57)"

text \<open>A string has the shape dd-MM-yyyy: two digits, a hyphen, two digits, a hyphen, four digits.\<close>

definition is_ddMMyyyy :: "string \<Rightarrow> bool" where
  "is_ddMMyyyy s =
     (length s = 10 \<and> list_all is_digit (take 2 s) \<and> s ! 2 = CHR ''-'' \<and>
      list_all is_digit (take 2 (drop 3 s)) \<and> s ! 5 = CHR ''-'' \<and>
      list_all is_digit (drop 6 s))"

section \<open>The entries endpoint (\<open>api/entries/route.ts\<close>)\<close>

text \<open>The nine labels of \<open>CategoryKey\<close>, as listed in \<open>validCategories\<close>.\<close>

definition validCategories :: "string list" where
  "validCategories =
     [''Food'', ''Transport'', ''Shopping'', ''Bills'', ''Coffee'', ''Entertainment'',
      ''Health'', ''Education'', ''Other'']"

text \<open>
  A handler that throws sends no JSON body; the only exception the handlers can raise
  after the body has been read is a \<open>TypeError\<close>.
\<close>

datatype error = TypeError

text \<open>
  The request body after \<open>req.json()\<close>. \<open>req_expenses\<close> is \<open>Some\<close> of the list when the
  body's \<open>expenses\<close> is an array (of objects, as \<open>Expense[]\<close> declares), and \<open>None\<close> when
  it is absent, falsy or not an array. \<open>req_budget\<close> is the body's \<open>budget\<close> property
  (\<open>undefined\<close> when absent): the handler destructures \<open>message\<close> and \<open>expenses\<close> only
  and reads nothing else of the body.
\<close>

record request =
  message :: json
  req_expenses :: "Expense list option"
  req_budget :: json

record llm_context =
  ctx_expenses :: "Expense list"
  ctx_budget :: BudgetMap
  ctx_lastTransaction :: "Expense option"

text \<open>
  The external model server is a parameter. \<open>CallFailed\<close> stands for every path into the
  \<open>catch\<close> block: \<open>fetch\<close> rejects, the status is not ok, the body is not JSON, or the
  sanitized \<open>response\<close> text is rejected by \<open>JSON.parse\<close>. \<open>Parsed v\<close> is the value that
  \<open>JSON.parse\<close> returned.
\<close>

datatype ollama_outcome = CallFailed | Parsed json

definition callAdvancedOllama ::
  "(json \<Rightarrow> llm_context \<Rightarrow> ollama_outcome) \<Rightarrow> json \<Rightarrow> llm_context \<Rightarrow> json" where
  "callAdvancedOllama ollama msg ctx =
     (case ollama msg ctx of CallFailed \<Rightarrow> JNull | Parsed v \<Rightarrow> v)"

text \<open>
  What a client reads back from the text \<open>JSON.stringify\<close> writes for a value: a
  property whose value is \<open>undefined\<close> is left out of its object, and an \<open>undefined\<close>
  element of an array becomes \<open>null\<close>. The text carries no references: what is read
  back has the reference \<open>0\<close> throughout.
\<close>

fun stringify :: "json \<Rightarrow> json" where
  "stringify (JArr r xs) =
     JArr 0 (map (\<lambda>x. if x = JUndefined then JNull else stringify x) xs)"
| "stringify (JObj r ob) =
     JObj 0 (map (\<lambda>kv. (fst kv, stringify (snd kv))) (filter (\<lambda>kv. snd kv \<noteq> JUndefined) ob))"
| "stringify v = v"

text \<open>
  The expense array and the budget object as values handed to \<open>JSON.stringify\<close>. The
  store keeps them as lists; their own references are never compared, and the
  serialisation does not read them.
\<close>

definition expenses_value :: "Expense list \<Rightarrow> json" where
  "expenses_value es = JArr 0 (map (JObj 0) es)"

definition budget_value :: "BudgetMap \<Rightarrow> json" where
  "budget_value b = JObj 0 b"

text \<open>\<open>NextResponse.json(body)\<close>: the response body, serialised by \<open>JSON.stringify\<close>.\<close>

definition NextResponse_json :: "obj \<Rightarrow> obj" where
  "NextResponse_json body =
     map (\<lambda>kv. (fst kv, stringify (snd kv))) (filter (\<lambda>kv. snd kv \<noteq> JUndefined) body)"

text \<open>
  An answer of the model that passes both guards in front of the \<open>switch\<close>: it has a
  truthy intent, and its execution status is neither \<open>ERROR\<close> nor
  \<open>CLARIFICATION_NEEDED\<close>.
\<close>

definition reaches_switch :: "json \<Rightarrow> bool" where
  "reaches_switch parsed =
     (truthy (read_prop parsed ''intent'')
      \<and> read_prop parsed ''execution_status'' \<noteq> JStr ''ERROR''
      \<and> read_prop parsed ''execution_status'' \<noteq> JStr ''CLARIFICATION_NEEDED'')"

text \<open>The literal replies, as UTF-8 bytes.\<close>

definition reply_not_understood :: string where
  "reply_not_understood =
     [CHR 0xE2, CHR 0x9A, CHR 0xA0, CHR 0xEF, CHR 0xB8, CHR 0x8F] @ '' I couldn'' @
     [CHR 0xE2, CHR 0x80, CHR 0x99] @ ''t understand that. Could you rephrase?''"

definition reply_no_recent_transaction :: string where
  "reply_no_recent_transaction =
     [CHR 0xF0, CHR 0x9F, CHR 0xA4, CHR 0x94] @ '' There'' @ [CHR 0x27] @
     ''s no recent transaction to update.''"

definition reply_not_found :: string where
  "reply_not_found =
     [CHR 0xE2, CHR 0x9D, CHR 0x8C] @ '' Sorry, I couldn'' @ [CHR 0x27] @
     ''t find the transaction to update.''"

definition reply_not_sure :: string where
  "reply_not_sure =
     [CHR 0xF0, CHR 0x9F, CHR 0xA4, CHR 0x94] @ '' I'' @ [CHR 0x27] @
     ''m not sure how to handle that request.''"

text \<open>The branches of the \<open>switch\<close> on \<open>parsed.intent\<close>, each returning the response and the store.\<close>

text \<open>
  The object literal \<open>newExpense\<close> of the \<open>log_expense\<close> branch, for data \<open>d\<close> that is
  neither \<open>null\<close> nor \<open>undefined\<close>. Reading \<open>d.amount\<close> throws otherwise, which
  \<open>log_expense\<close> checks before it builds the object.
\<close>

definition newExpense :: "clock \<Rightarrow> json \<Rightarrow> Expense" where
  "newExpense clk d =
     [(''id'', JStr (toString_nat (Date_now clk))),
      (''amount'', read_prop d ''amount''),
      (''category'', read_prop d ''category''),
      (''note'', read_prop d ''note''),
      (''date'', if truthy (read_prop d ''date'') then read_prop d ''date''
                 else JStr (format_ddMMyyyy clk))]"

definition log_expense :: "clock \<Rightarrow> json \<Rightarrow> store \<Rightarrow> (error + obj) \<times> store" where
  "log_expense clk parsed s =
     (let d = read_prop parsed ''data'' in
      if nullish d then (Inl TypeError, s)
      else
        let s' = addExpense (newExpense clk d) s
        in (Inr (NextResponse_json
                   [(''reply'', read_prop parsed ''reply''),
                    (''updatedExpenses'', expenses_value (getExpenses s'))]), s'))"

definition update_last_expense :: "json \<Rightarrow> store \<Rightarrow> (error + obj) \<times> store" where
  "update_last_expense parsed s =
     (case getLastTransaction s of
        None \<Rightarrow> (Inr (NextResponse_json [(''reply'', JStr reply_no_recent_transaction)]), s)
      | Some lastTx \<Rightarrow>
          (let d = read_prop parsed ''data'';
               (success, s1) = updateExpenseById (get lastTx ''id'') d s
           in if success then
                let updatedTxInMemory = spread lastTx (own_props d);
                    s2 = updateLastTransaction (Some updatedTxInMemory) s1
                in (Inr (NextResponse_json
                           [(''reply'', read_prop parsed ''reply''),
                            (''updatedExpenses'', expenses_value (getExpenses s2))]), s2)
              else (Inr (NextResponse_json [(''reply'', JStr reply_not_found)]), s1)))"

definition get_summary :: "json \<Rightarrow> store \<Rightarrow> (error + obj) \<times> store" where
  "get_summary parsed s =
     (let d = read_prop parsed ''data'' in
      if nullish d then (Inl TypeError, s)
      else (Inr (NextResponse_json
                   [(''reply'', read_prop parsed ''reply''),
                    (''summaryData'', read_prop d ''result'')]), s))"

text \<open>
  The \<open>set_budget\<close> branch, the same text in both routes. Calling \<open>toLowerCase\<close> on a
  truthy category that is not a string throws.
\<close>

definition set_budget :: "json \<Rightarrow> store \<Rightarrow> (error + obj) \<times> store" where
  "set_budget parsed s =
     (let d = read_prop parsed ''data'';
          newBudget = spread [] (getBudget s)
      in if nullish d then (Inl TypeError, s)
         else
           let c = read_prop d ''category'';
               finish = (\<lambda>b. let s' = setBudget b s
                           in (Inr (NextResponse_json
                                      [(''reply'', read_prop parsed ''reply''),
                                       (''updatedBudget'', budget_value (getBudget s'))]), s'))
           in if truthy c then
                (case c of
                   JStr cs \<Rightarrow>
                     if toLowerCase cs \<noteq> ''total''
                     then finish (assign_prop newBudget cs (read_prop d ''amount''))
                     else finish (assign_prop newBudget ''total'' (read_prop d ''amount''))
                 | _ \<Rightarrow> (Inl TypeError, s))
              else finish (assign_prop newBudget ''total'' (read_prop d ''amount'')))"

definition get_advice :: "json \<Rightarrow> store \<Rightarrow> (error + obj) \<times> store" where
  "get_advice parsed s = (Inr (NextResponse_json [(''reply'', read_prop parsed ''reply'')]), s)"

text \<open>Hydrating the store from the request, and the context handed to the model.\<close>

definition hydrate :: "request \<Rightarrow> store \<Rightarrow> store" where
  "hydrate req s =
     (case req_expenses req of
        Some clientExpenses \<Rightarrow> setExpensesForRequest clientExpenses s
      | None \<Rightarrow> s)"

definition context_of :: "store \<Rightarrow> llm_context" where
  "context_of s =
     \<lparr> ctx_expenses = getExpenses s,
       ctx_budget = getBudget s,
       ctx_lastTransaction = getLastTransaction s \<rparr>"

definition dispatch :: "clock \<Rightarrow> json \<Rightarrow> store \<Rightarrow> (error + obj) \<times> store" where
  "dispatch clk parsed s =
     (if \<not> truthy parsed \<or> \<not> truthy (read_prop parsed ''intent'')
         \<or> read_prop parsed ''execution_status'' = JStr ''ERROR''
      then (Inr (NextResponse_json [(''reply'', JStr reply_not_understood)]), s)
      else if read_prop parsed ''execution_status'' = JStr ''CLARIFICATION_NEEDED''
      then (Inr (NextResponse_json
                   [(''reply'', read_prop parsed ''reply''),
                    (''data'', read_prop parsed ''data'')]), s)
      else if read_prop parsed ''intent'' = JStr ''log_expense'' then log_expense clk parsed s
      else if read_prop parsed ''intent'' = JStr ''update_last_expense''
      then update_last_expense parsed s
      else if read_prop parsed ''intent'' = JStr ''get_summary'' then get_summary parsed s
      else if read_prop parsed ''intent'' = JStr ''set_budget'' then set_budget parsed s
      else if read_prop parsed ''intent'' = JStr ''get_advice'' then get_advice parsed s
      else (Inr (NextResponse_json [(''reply'', JStr reply_not_sure)]), s))"

definition POST ::
  "(json \<Rightarrow> llm_context \<Rightarrow> ollama_outcome) \<Rightarrow> clock \<Rightarrow> request \<Rightarrow> store
     \<Rightarrow> (error + obj) \<times> store" where
  "POST ollama clk req s =
     (let s1 = hydrate req s;
          parsed = callAdvancedOllama ollama (message req) (context_of s1)
      in dispatch clk parsed s1)"

section \<open>The chat endpoint (\<open>api/chat/route.ts\<close>)\<close>

record chat_context =
  chat_expenses :: "Expense list"
  chat_budget :: BudgetMap

definition callAssistantOllama ::
  "(json \<Rightarrow> chat_context \<Rightarrow> ollama_outcome) \<Rightarrow> json \<Rightarrow> chat_context \<Rightarrow> json" where
  "callAssistantOllama ollama msg ctx =
     (case ollama msg ctx of CallFailed \<Rightarrow> JNull | Parsed v \<Rightarrow> v)"

definition reply_trouble_understanding :: string where
  "reply_trouble_understanding =
     [CHR 0xE2, CHR 0x9A, CHR 0xA0, CHR 0xEF, CHR 0xB8, CHR 0x8F] @
     '' I had trouble understanding that. Could you rephrase your question?''"

definition chat_summary_or_advice :: "json \<Rightarrow> store \<Rightarrow> (error + obj) \<times> store" where
  "chat_summary_or_advice parsed s =
     (let d = read_prop parsed ''data'' in
      if nullish d then (Inl TypeError, s)
      else (Inr (NextResponse_json
                   [(''reply'', read_prop parsed ''reply''),
                    (''summaryData'', read_prop d ''result'')]), s))"

definition chat_dispatch :: "json \<Rightarrow> store \<Rightarrow> (error + obj) \<times> store" where
  "chat_dispatch parsed s =
     (if \<not> truthy parsed \<or> \<not> truthy (read_prop parsed ''intent'')
      then (Inr (NextResponse_json [(''reply'', JStr reply_trouble_understanding)]), s)
      else if read_prop parsed ''intent'' = JStr ''set_budget'' then set_budget parsed s
      else if read_prop parsed ''intent'' = JStr ''get_summary''
              \<or> read_prop parsed ''intent'' = JStr ''get_advice''
      then chat_summary_or_advice parsed s
      else (Inr (NextResponse_json
                   [(''reply'', if truthy (read_prop parsed ''reply'')
                                then read_prop parsed ''reply'' else JStr reply_not_sure)]), s))"

definition chat_POST ::
  "(json \<Rightarrow> chat_context \<Rightarrow> ollama_outcome) \<Rightarrow> json \<Rightarrow> store \<Rightarrow> (error + obj) \<times> store" where
  "chat_POST ollama msg s =
     (let ctx = \<lparr> chat_expenses = getExpenses s, chat_budget = getBudget s \<rparr>;
          parsed = callAssistantOllama ollama msg ctx
      in chat_dispatch parsed s)"

section \<open>States the store operations can reach\<close>

text \<open>The newest (first) element of the list is the last transaction; none when the list is empty.\<close>

definition last_tx_in_sync :: "store \<Rightarrow> bool" where
  "last_tx_in_sync s =
     (case expenses s of
        [] \<Rightarrow> lastTransaction s = None
      | e # _ \<Rightarrow> lastTransaction s = Some e)"

text \<open>Every state reachable from the module's initial state by the six store operations.\<close>

inductive store_reachable :: "store \<Rightarrow> bool" where
  r_init: "store_reachable initial_store"
| r_set: "store_reachable s \<Longrightarrow> store_reachable (setExpensesForRequest xs s)"
| r_add: "store_reachable s \<Longrightarrow> store_reachable (addExpense e s)"
| r_update: "store_reachable s \<Longrightarrow> store_reachable (snd (updateExpenseById i u s))"
| r_delete: "store_reachable s \<Longrightarrow> store_reachable (deleteExpense i s)"
| r_clear: "store_reachable s \<Longrightarrow> store_reachable (clearExpenses s)"
| r_last: "store_reachable s \<Longrightarrow> store_reachable (updateLastTransaction t s)"

text \<open>
  The same without \<open>deleteExpense\<close> and \<open>updateLastTransaction\<close>, the two operations
  that write only one of the two variables.
\<close>

inductive sync_reachable :: "store \<Rightarrow> bool" where
  s_init: "sync_reachable initial_store"
| s_set: "sync_reachable s \<Longrightarrow> sync_reachable (setExpensesForRequest xs s)"
| s_add: "sync_reachable s \<Longrightarrow> sync_reachable (addExpense e s)"
| s_update: "sync_reachable s \<Longrightarrow> sync_reachable (snd (updateExpenseById i u s))"
| s_clear: "sync_reachable s \<Longrightarrow> sync_reachable (clearExpenses s)"

section \<open>Example states\<close>

text \<open>Three expenses, the second and the third with the same identifier.\<close>

definition two_b_store :: store where
  "two_b_store =
     \<lparr> expenses = [[(''id'', JStr ''a''), (''amount'', JNum 10)],
                   [(''id'', JStr ''b''), (''amount'', JNum 20)],
                   [(''id'', JStr ''b''), (''amount'', JNum 30)]],
       budget = [(''total'', JNum 50000)],
       lastTransaction = Some [(''id'', JStr ''a''), (''amount'', JNum 10)] \<rparr>"

text \<open>A request that carries a budget and no expense list, and a clock.\<close>

definition budget_only_request :: request where
  "budget_only_request =
     \<lparr> message = JStr ''hello'', req_expenses = None,
       req_budget = JObj 9 [(''total'', JNum 1)] \<rparr>"

definition list_request :: request where
  "list_request =
     \<lparr> message = JStr ''hello'',
       req_expenses = Some [[(''id'', JStr ''x''), (''category'', JStr ''Food'')]],
       req_budget = JUndefined \<rparr>"

definition example_clock :: clock where
  "example_clock =
     \<lparr> Date_now = 1700000000000, day_of_month = 2, month_of_year = 11, full_year = 2026 \<rparr>"

text \<open>An expense whose category is one of the nine labels.\<close>

definition valid_category :: "Expense \<Rightarrow> bool" where
  "valid_category e =
     (case get e ''category'' of JStr c \<Rightarrow> c \<in> set validCategories | _ \<Rightarrow> False)"

text \<open>Two answers of the model to a request to log an expense.\<close>

definition groceries_answer :: json where
  "groceries_answer =
     JObj 1 [(''intent'', JStr ''log_expense''), (''execution_status'', JStr ''SUCCESS''),
           (''data'', JObj 2 [(''amount'', JNum 120), (''category'', JStr ''Groceries''),
                            (''date'', JStr ''2024-01-05'')]),
           (''reply'', JStr ''Logged.'')]"

definition coffee_answer :: json where
  "coffee_answer =
     JObj 1 [(''intent'', JStr ''log_expense''), (''execution_status'', JStr ''SUCCESS''),
           (''data'', JObj 2 [(''amount'', JNum 80), (''category'', JStr ''Coffee'')]),
           (''reply'', JStr ''Logged.'')]"

text \<open>
  The entry of the budget map a \<open>set_budget\<close> request names: the category when a
  category other than \<open>total\<close> (compared in lower case) is given, and \<open>total\<close> otherwise.
\<close>

definition budget_key :: "json \<Rightarrow> string" where
  "budget_key c =
     (case c of
        JStr cs \<Rightarrow> if cs \<noteq> [] \<and> toLowerCase cs \<noteq> ''total'' then cs else ''total''
      | _ \<Rightarrow> ''total'')"

text \<open>Answers of the model to requests to set a budget.\<close>

definition food_budget_answer :: "real \<Rightarrow> json" where
  "food_budget_answer amount =
     JObj 1 [(''intent'', JStr ''set_budget''), (''execution_status'', JStr ''SUCCESS''),
           (''data'', JObj 2 [(''category'', JStr ''Food''), (''amount'', JNum amount)]),
           (''reply'', JStr ''Done.'')]"

text \<open>Further answers of the model.\<close>

definition update_last_answer :: json where
  "update_last_answer =
     JObj 1 [(''intent'', JStr ''update_last_expense''), (''execution_status'', JStr ''SUCCESS''),
           (''data'', JObj 2 [(''amount'', JNum 250)]),
           (''reply'', JStr ''Updated.'')]"

definition clarification_answer :: json where
  "clarification_answer =
     JObj 1 [(''intent'', JStr ''log_expense''),
           (''execution_status'', JStr ''CLARIFICATION_NEEDED''),
           (''data'', JObj 2 [(''amount'', JNum 250)]),
           (''reply'', JStr ''Which category?'')]"

text \<open>
  An answer of the model that asks to update the last expense and carries an \<open>id\<close>
  in its data.
\<close>

definition rename_answer :: json where
  "rename_answer =
     JObj 1 [(''intent'', JStr ''update_last_expense''), (''execution_status'', JStr ''SUCCESS''),
             (''data'', JObj 2 [(''id'', JStr ''q'')]),
             (''reply'', JStr ''Updated.'')]"

text \<open>
  Two expenses whose identifiers are objects of the same content and of different
  references.
\<close>

definition object_id_store :: store where
  "object_id_store =
     \<lparr> expenses = [[(''id'', JObj 5 [(''n'', JNum 1)])], [(''id'', JObj 4 [(''n'', JNum 1)])]],
       budget = [(''total'', JNum 50000)],
       lastTransaction = Some [(''id'', JObj 5 [(''n'', JNum 1)])] \<rparr>"

text \<open>A value that is one of the nine labels.\<close>

definition label_ok :: "json \<Rightarrow> bool" where
  "label_ok v = (case v of JStr c \<Rightarrow> c \<in> set validCategories | _ \<Rightarrow> False)"

text \<open>Every record the store holds, in the list and as last transaction, has one of the nine labels.\<close>

definition valid_store :: "store \<Rightarrow> bool" where
  "valid_store s =
     (list_all valid_category (expenses s)
      \<and> (case lastTransaction s of None \<Rightarrow> True | Some lt \<Rightarrow> valid_category lt))"

text \<open>
  The categories of the model's answer that the handler records: the category of the
  data for the intent log_expense, which must be one of the nine labels, and for the
  intent update_last_expense the category among the data's properties, which must be
  one of the nine labels if there is one.
\<close>

definition model_categories_ok :: "json \<Rightarrow> bool" where
  "model_categories_ok parsed =
     (if read_prop parsed ''intent'' = JStr ''log_expense''
      then label_ok (read_prop (read_prop parsed ''data'') ''category'')
      else if read_prop parsed ''intent'' = JStr ''update_last_expense''
      then (case map_of (own_props (read_prop parsed ''data'')) ''category'' of
              None \<Rightarrow> True | Some v \<Rightarrow> label_ok v)
      else True)"

text \<open>
  A returned expense list, as the client reads it: absent, or an array of records that
  each have one of the nine labels.
\<close>

definition returned_valid :: "json \<Rightarrow> bool" where
  "returned_valid v =
     (case v of
        JUndefined \<Rightarrow> True
      | JArr r xs \<Rightarrow> list_all (\<lambda>x. valid_category (own_props x)) xs
      | _ \<Rightarrow> False)"

text \<open>The \<open>GET\<close> handler of the entries route: the list and the budget of the store.\<close>

definition GET :: "store \<Rightarrow> obj" where
  "GET s =
     NextResponse_json
       [(''expenses'', expenses_value (getExpenses s)), (''budget'', budget_value (getBudget s))]"

section \<open>Auxiliary facts\<close>

lemma findIndex_SomeD:
  "findIndex P xs = Some i \<Longrightarrow> i < length xs \<and> P (xs ! i) \<and> (\<forall>j<i. \<not> P (xs ! j))"
proof (induction xs arbitrary: i)
  case Nil
  then show ?case by simp
next
  case (Cons x xs)
  show ?case
  proof (cases "P x")
    case True
    with Cons.prems show ?thesis by simp
  next
    case False
    with Cons.prems obtain k where k: "findIndex P xs = Some k" "i = Suc k"
      by auto
    from Cons.IH [OF k(1)] False k(2) show ?thesis
      by (auto simp: nth_Cons split: nat.splits)
  qed
qed

lemma findIndex_None_iff: "findIndex P xs = None \<longleftrightarrow> (\<forall>x\<in>set xs. \<not> P x)"
  by (induction xs) auto

lemma map_of_override:
  "map_of (map (\<lambda>(x, v). (x, case m x of Some v' \<Rightarrow> v' | None \<Rightarrow> v)) a) k
     = (case map_of a k of None \<Rightarrow> None
        | Some v \<Rightarrow> Some (case m k of Some v' \<Rightarrow> v' | None \<Rightarrow> v))"
  by (induction a) (auto split: option.splits)

lemma map_of_filter_absent:
  "k \<notin> A \<Longrightarrow> map_of (filter (\<lambda>(x, v). x \<notin> A) b) k = map_of b k"
  by (induction b) auto

lemma map_of_spread: "map_of (spread a b) = map_of a ++ map_of b"
proof
  fix k
  show "map_of (spread a b) k = (map_of a ++ map_of b) k"
  proof (cases "map_of a k")
    case None
    then have "k \<notin> set (map fst a)"
      by (simp add: map_of_eq_None_iff)
    with None show ?thesis
      by (simp add: spread_def map_add_def map_of_override map_of_filter_absent
          split: option.splits)
  next
    case (Some v)
    then show ?thesis
      by (simp add: spread_def map_add_def map_of_override split: option.splits)
  qed
qed

lemma get_spread:
  "get (spread a b) k = (case map_of b k of Some v \<Rightarrow> v | None \<Rightarrow> get a k)"
  by (simp add: get_def map_of_spread map_add_def split: option.splits)

lemma spread_Nil: "spread [] b = b"
  by (simp add: spread_def)

lemma get_spread_absent:
  "k \<notin> fst ` set b \<Longrightarrow> get (spread a b) k = get a k"
  by (simp add: get_spread map_of_eq_None_iff [THEN iffD2])

lemma updateExpenseById_expenses:
  "findIndex (has_id i) (expenses s) = Some k \<Longrightarrow>
   expenses (snd (updateExpenseById i updates s))
     = (expenses s)[k := spread (expenses s ! k) (own_props updates)]"
  by (simp add: updateExpenseById_def Let_def split: option.splits)

section \<open>The store operations\<close>

text \<open>
  Claim C6. When some element of the expense list has the given identifier,
  \<open>updateExpenseById\<close> returns true and replaces exactly one element: the one at the
  first position \<open>k\<close> whose id matches. The new element is the old one with the supplied
  fields merged in: a field the update supplies takes the update's value, every other
  field keeps its own. Every other position, a later element with the same identifier
  included, holds what it held before.
\<close>

theorem updateExpenseById_first_match:
  assumes "\<exists>e \<in> set (expenses s). has_id i e"
  shows "\<exists>k < length (expenses s).
           has_id i (expenses s ! k) \<and> (\<forall>j<k. \<not> has_id i (expenses s ! j)) \<and>
           fst (updateExpenseById i updates s) = True \<and>
           expenses (snd (updateExpenseById i updates s))
             = (expenses s)[k := spread (expenses s ! k) (own_props updates)] \<and>
           (\<forall>f. get (expenses (snd (updateExpenseById i updates s)) ! k) f
                  = (case map_of (own_props updates) f of
                       Some v \<Rightarrow> v | None \<Rightarrow> get (expenses s ! k) f)) \<and>
           (\<forall>j. j \<noteq> k \<longrightarrow>
                  expenses (snd (updateExpenseById i updates s)) ! j = expenses s ! j)"
proof -
  from assms obtain k where k: "findIndex (has_id i) (expenses s) = Some k"
    using findIndex_None_iff [of "has_id i" "expenses s"]
    by (cases "findIndex (has_id i) (expenses s)") auto
  note kk = findIndex_SomeD [OF k]
  note ex = updateExpenseById_expenses [OF k, of updates]
  have ret: "fst (updateExpenseById i updates s) = True"
    using k by (simp add: updateExpenseById_def Let_def)
  show ?thesis
    using kk ex ret by (intro exI [of _ k]) (simp add: get_spread)
qed

text \<open>
  The theorem at a list of three expenses of which the second and the third share the
  identifier \<open>b\<close>: the second gets the new amount, the third keeps its own.
\<close>

theorem updateExpenseById_first_match_witness:
  "(\<exists>e \<in> set (expenses two_b_store). has_id (JStr ''b'') e)
   \<and> fst (updateExpenseById (JStr ''b'') (JObj 3 [(''amount'', JNum 99)]) two_b_store) = True
   \<and> expenses (snd (updateExpenseById (JStr ''b'') (JObj 3 [(''amount'', JNum 99)]) two_b_store))
       = [[(''id'', JStr ''a''), (''amount'', JNum 10)],
          [(''id'', JStr ''b''), (''amount'', JNum 99)],
          [(''id'', JStr ''b''), (''amount'', JNum 30)]]"
proof -
  have h: "\<exists>e \<in> set (expenses two_b_store). has_id (JStr ''b'') e"
    by (simp add: two_b_store_def has_id_def get_def)
  from updateExpenseById_first_match [OF h, of "JObj 3 [(''amount'', JNum 99)]"]
  obtain k where k: "k < length (expenses two_b_store)"
      "has_id (JStr ''b'') (expenses two_b_store ! k)"
      "\<forall>j<k. \<not> has_id (JStr ''b'') (expenses two_b_store ! j)"
      "fst (updateExpenseById (JStr ''b'') (JObj 3 [(''amount'', JNum 99)]) two_b_store) = True"
      "expenses (snd (updateExpenseById (JStr ''b'') (JObj 3 [(''amount'', JNum 99)]) two_b_store))
         = (expenses two_b_store)[k := spread (expenses two_b_store ! k)
                                           (own_props (JObj 3 [(''amount'', JNum 99)]))]"
    by blast
  have "k \<noteq> 0"
  proof
    assume "k = 0"
    with k(2) show False
      by (simp add: two_b_store_def has_id_def get_def)
  qed
  moreover have "k \<noteq> 2"
  proof
    assume "k = 2"
    with k(3) have "\<not> has_id (JStr ''b'') (expenses two_b_store ! 1)"
      by simp
    then show False
      by (simp add: two_b_store_def has_id_def get_def)
  qed
  moreover from k(1) have "k < 3"
    by (simp add: two_b_store_def)
  ultimately have "k = 1"
    by arith
  with k(4,5) h show ?thesis
    by (simp add: two_b_store_def spread_def)
qed

lemma strict_eq_refl: "strict_eq a a"
  by (cases a) simp_all

lemma has_id_self: "has_id (get e ''id'') e"
  by (simp add: has_id_def strict_eq_refl)

text \<open>
  Claim C8. \<open>deleteExpense\<close> keeps exactly the elements whose id differs from the given
  identifier, in their order, and writes neither the last transaction nor the budget.
  So when an expense has just been added and is then deleted by its identifier, it is
  gone from the list and \<open>getLastTransaction\<close> still returns it.
\<close>

theorem deleteExpense_frame:
  "set (expenses (deleteExpense i s)) = {e \<in> set (expenses s). \<not> has_id i e}
   \<and> expenses (deleteExpense i s) = filter (\<lambda>e. \<not> has_id i e) (expenses s)
   \<and> subseq (expenses (deleteExpense i s)) (expenses s)
   \<and> getLastTransaction (deleteExpense i s) = getLastTransaction s
   \<and> getBudget (deleteExpense i s) = getBudget s
   \<and> getLastTransaction (deleteExpense (get e ''id'') (addExpense e s)) = Some e
   \<and> e \<notin> set (getExpenses (deleteExpense (get e ''id'') (addExpense e s)))"
  by (simp add: deleteExpense_def getLastTransaction_def getBudget_def getExpenses_def
      addExpense_def has_id_self)

text \<open>
  The theorem at an expense whose identifier is a string and at one whose identifier is
  an object: deleting by the identifier the expense holds removes it in both cases.
\<close>

theorem deleteExpense_frame_witness:
  "getLastTransaction
        (deleteExpense (JStr ''c'')
           (addExpense [(''id'', JStr ''c''), (''amount'', JNum 5)] two_b_store))
       = Some [(''id'', JStr ''c''), (''amount'', JNum 5)]
   \<and> getExpenses
        (deleteExpense (JStr ''c'')
           (addExpense [(''id'', JStr ''c''), (''amount'', JNum 5)] two_b_store))
       = expenses two_b_store
   \<and> getExpenses
        (deleteExpense (JObj 4 [(''n'', JNum 1)])
           (addExpense [(''id'', JObj 4 [(''n'', JNum 1)])] two_b_store))
       = expenses two_b_store"
proof -
  let ?c = "[(''id'', JStr ''c''), (''amount'', JNum 5)]"
  let ?o = "[(''id'', JObj 4 [(''n'', JNum 1)])]"
  have c: "get ?c ''id'' = JStr ''c''" and o: "get ?o ''id'' = JObj 4 [(''n'', JNum 1)]"
    by (simp_all add: get_def)
  note dc = deleteExpense_frame [where i = "JStr ''c''" and s = "addExpense ?c two_b_store"]
  note do = deleteExpense_frame [where i = "JObj 4 [(''n'', JNum 1)]"
      and s = "addExpense ?o two_b_store"]
  from deleteExpense_frame [where e = ?c and s = two_b_store] c have 1: "getLastTransaction (deleteExpense (JStr ''c'') (addExpense ?c two_b_store))
       = Some ?c"
    by simp
  from dc have "getExpenses (deleteExpense (JStr ''c'') (addExpense ?c two_b_store))
       = filter (\<lambda>e. \<not> has_id (JStr ''c'') e) (expenses (addExpense ?c two_b_store))"
    by (simp add: getExpenses_def)
  also have "\<dots> = expenses two_b_store"
    by (simp add: addExpense_def two_b_store_def has_id_def get_def)
  finally have 2: "getExpenses (deleteExpense (JStr ''c'') (addExpense ?c two_b_store))
       = expenses two_b_store" .
  from do have "getExpenses (deleteExpense (JObj 4 [(''n'', JNum 1)]) (addExpense ?o two_b_store))
       = filter (\<lambda>e. \<not> has_id (JObj 4 [(''n'', JNum 1)]) e)
           (expenses (addExpense ?o two_b_store))"
    by (simp add: getExpenses_def)
  also have "\<dots> = expenses two_b_store"
    by (simp add: addExpense_def two_b_store_def has_id_def get_def)
  finally have 3: "getExpenses (deleteExpense (JObj 4 [(''n'', JNum 1)])
       (addExpense ?o two_b_store)) = expenses two_b_store" .
  from 1 2 3 show ?thesis
    by simp
qed

text \<open>
  Claim C1, as amended. In every state reached from the initial store by
  \<open>setExpensesForRequest\<close>, \<open>addExpense\<close>, \<open>updateExpenseById\<close> and \<open>clearExpenses\<close>,
  the last transaction is the first element of the expense list when the list is
  non-empty and is null when it is empty.
\<close>

theorem sync_reachable_in_sync:
  assumes "sync_reachable s"
  shows "last_tx_in_sync s"
  using assms
proof (induction rule: sync_reachable.induct)
  case s_init
  show ?case by (simp add: last_tx_in_sync_def initial_store_def)
next
  case (s_set s xs)
  show ?case by (simp add: last_tx_in_sync_def setExpensesForRequest_def split: list.splits)
next
  case (s_add s e)
  show ?case by (simp add: last_tx_in_sync_def addExpense_def)
next
  case (s_update s i u)
  show ?case
  proof (cases "findIndex (has_id i) (expenses s)")
    case None
    with s_update.IH show ?thesis by (simp add: updateExpenseById_def)
  next
    case (Some k)
    note kk = findIndex_SomeD [OF Some]
    from kk obtain e es where es: "expenses s = e # es"
      by (cases "expenses s") auto
    with s_update.IH have lt: "lastTransaction s = Some e"
      by (simp add: last_tx_in_sync_def)
    show ?thesis
    proof (cases k)
      case 0
      with kk es have "has_id i e" by simp
      with Some 0 es lt show ?thesis
        by (simp add: updateExpenseById_def Let_def last_tx_in_sync_def)
    next
      case (Suc k')
      with kk es have "\<not> has_id i e" by auto
      with Some Suc es lt show ?thesis
        by (simp add: updateExpenseById_def Let_def last_tx_in_sync_def)
    qed
  qed
next
  case (s_clear s)
  show ?case by (simp add: last_tx_in_sync_def clearExpenses_def)
qed

text \<open>
  The theorem at the state after a request's list of two expenses was stored, a third
  was added and the one with identifier \<open>b\<close> was updated.
\<close>

theorem sync_reachable_in_sync_witness:
  "sync_reachable
     (snd (updateExpenseById (JStr ''b'') (JObj 3 [(''amount'', JNum 99)])
        (addExpense [(''id'', JStr ''c'')]
           (setExpensesForRequest [[(''id'', JStr ''a'')], [(''id'', JStr ''b'')]] initial_store))))
   \<and> last_tx_in_sync
     (snd (updateExpenseById (JStr ''b'') (JObj 3 [(''amount'', JNum 99)])
        (addExpense [(''id'', JStr ''c'')]
           (setExpensesForRequest [[(''id'', JStr ''a'')], [(''id'', JStr ''b'')]] initial_store))))"
proof -
  have h: "sync_reachable
     (snd (updateExpenseById (JStr ''b'') (JObj 3 [(''amount'', JNum 99)])
        (addExpense [(''id'', JStr ''c'')]
           (setExpensesForRequest [[(''id'', JStr ''a'')], [(''id'', JStr ''b'')]] initial_store))))"
    by (intro s_update s_add s_set s_init)
  from h sync_reachable_in_sync [OF h] show ?thesis
    by blast
qed

text \<open>
  Claim C1, as stated, fails: \<open>updateLastTransaction\<close> writes the last transaction
  alone. Applied to the initial store it gives a state with an empty expense list and
  a last transaction that is not null.
\<close>

theorem store_reachable_out_of_sync:
  "store_reachable (updateLastTransaction (Some [(''id'', JStr ''1'')]) initial_store)
   \<and> expenses (updateLastTransaction (Some [(''id'', JStr ''1'')]) initial_store) = []
   \<and> lastTransaction (updateLastTransaction (Some [(''id'', JStr ''1'')]) initial_store) \<noteq> None
   \<and> \<not> last_tx_in_sync (updateLastTransaction (Some [(''id'', JStr ''1'')]) initial_store)"
proof -
  have "store_reachable (updateLastTransaction (Some [(''id'', JStr ''1'')]) initial_store)"
    by (intro r_last r_init)
  then show ?thesis
    by (simp add: updateLastTransaction_def initial_store_def last_tx_in_sync_def)
qed

section \<open>The fallback reply\<close>

lemma dispatch_no_intent:
  "\<not> truthy (read_prop parsed ''intent'') \<Longrightarrow>
   dispatch clk parsed s = (Inr [(''reply'', JStr reply_not_understood)], s)"
  by (simp add: dispatch_def NextResponse_json_def)

lemma chat_dispatch_no_intent:
  "\<not> truthy (read_prop parsed ''intent'') \<Longrightarrow>
   chat_dispatch parsed s = (Inr [(''reply'', JStr reply_trouble_understanding)], s)"
  by (simp add: chat_dispatch_def NextResponse_json_def)

text \<open>
  Claim C4. When the call to the model fails, or the value it returned has no truthy
  \<open>intent\<close> property, the entries handler answers with the body
  \<open>{reply: reply_not_understood}\<close> and the chat handler with the body
  \<open>{reply: reply_trouble_understanding}\<close>: one fixed message per handler, whatever the
  request, the store, the clock and the kind of failure.
\<close>

theorem fallback_reply:
  "(ollama (message req) (context_of (hydrate req s)) = CallFailed
      \<or> (\<exists>v. ollama (message req) (context_of (hydrate req s)) = Parsed v
               \<and> \<not> truthy (read_prop v ''intent''))
    \<longrightarrow> fst (POST ollama clk req s) = Inr [(''reply'', JStr reply_not_understood)])
   \<and> (chat_ollama msg \<lparr> chat_expenses = getExpenses s, chat_budget = getBudget s \<rparr> = CallFailed
      \<or> (\<exists>v. chat_ollama msg \<lparr> chat_expenses = getExpenses s, chat_budget = getBudget s \<rparr>
                 = Parsed v
               \<and> \<not> truthy (read_prop v ''intent''))
    \<longrightarrow> fst (chat_POST chat_ollama msg s) = Inr [(''reply'', JStr reply_trouble_understanding)])"
proof (intro conjI impI)
  assume "ollama (message req) (context_of (hydrate req s)) = CallFailed
      \<or> (\<exists>v. ollama (message req) (context_of (hydrate req s)) = Parsed v
               \<and> \<not> truthy (read_prop v ''intent''))"
  then have "\<not> truthy (read_prop
      (callAdvancedOllama ollama (message req) (context_of (hydrate req s))) ''intent'')"
    by (auto simp: callAdvancedOllama_def read_prop_def)
  then show "fst (POST ollama clk req s) = Inr [(''reply'', JStr reply_not_understood)]"
    by (simp add: POST_def Let_def dispatch_no_intent)
next
  let ?ctx = "\<lparr> chat_expenses = getExpenses s, chat_budget = getBudget s \<rparr>"
  assume "chat_ollama msg ?ctx = CallFailed
      \<or> (\<exists>v. chat_ollama msg ?ctx = Parsed v \<and> \<not> truthy (read_prop v ''intent''))"
  then have "\<not> truthy (read_prop (callAssistantOllama chat_ollama msg ?ctx) ''intent'')"
    by (auto simp: callAssistantOllama_def read_prop_def)
  then show "fst (chat_POST chat_ollama msg s)
      = Inr [(''reply'', JStr reply_trouble_understanding)]"
    by (simp add: chat_POST_def Let_def chat_dispatch_no_intent)
qed

text \<open>
  The theorem at a failed call to the entries handler and at an answer without intent
  to the chat handler.
\<close>

theorem fallback_reply_witness:
  "(\<lambda>m c. CallFailed) (message list_request) (context_of (hydrate list_request two_b_store))
      = CallFailed
   \<and> fst (POST (\<lambda>m c. CallFailed) example_clock list_request two_b_store)
      = Inr [(''reply'', JStr reply_not_understood)]
   \<and> \<not> truthy (read_prop (JObj 1 [(''reply'', JStr ''hi'')]) ''intent'')
   \<and> fst (chat_POST (\<lambda>m c. Parsed (JObj 1 [(''reply'', JStr ''hi'')])) (JStr ''hello'') two_b_store)
      = Inr [(''reply'', JStr reply_trouble_understanding)]"
proof -
  have h: "\<not> truthy (read_prop (JObj 1 [(''reply'', JStr ''hi'')]) ''intent'')"
    by (simp add: read_prop_def get_def)
  note t = fallback_reply [where ollama = "\<lambda>m c. CallFailed" and req = list_request
      and s = two_b_store and clk = example_clock and msg = "JStr ''hello''"
      and chat_ollama = "\<lambda>m c. Parsed (JObj 1 [(''reply'', JStr ''hi'')])"]
  from t have a: "fst (POST (\<lambda>m c. CallFailed) example_clock list_request two_b_store)
      = Inr [(''reply'', JStr reply_not_understood)]"
    by blast
  from t h have b:
    "fst (chat_POST (\<lambda>m c. Parsed (JObj 1 [(''reply'', JStr ''hi'')])) (JStr ''hello'') two_b_store)
      = Inr [(''reply'', JStr reply_trouble_understanding)]"
    by blast
  from a b h show ?thesis
    by simp
qed

section \<open>The entries endpoint: logging an expense\<close>

lemma log_expense_result:
  assumes "\<not> nullish (read_prop parsed ''data'')"
  shows "log_expense clk parsed s =
     (Inr (NextResponse_json
        [(''reply'', read_prop parsed ''reply''),
         (''updatedExpenses'',
          expenses_value (newExpense clk (read_prop parsed ''data'') # expenses s))]),
      s\<lparr>expenses := newExpense clk (read_prop parsed ''data'') # expenses s,
         lastTransaction := Some (newExpense clk (read_prop parsed ''data''))\<rparr>)"
  using assms by (simp add: log_expense_def Let_def addExpense_def getExpenses_def)

lemma get_newExpense:
  "get (newExpense clk d) ''category'' = read_prop d ''category''"
  "get (newExpense clk d) ''date''
     = (if truthy (read_prop d ''date'') then read_prop d ''date''
        else JStr (format_ddMMyyyy clk))"
  by (simp_all add: newExpense_def get_def)

lemma read_prop_truthy: "read_prop v k = JStr (c # cs) \<Longrightarrow> truthy v"
  by (cases v) (simp_all add: read_prop_def)

lemma dispatch_log_expense:
  assumes "read_prop parsed ''intent'' = JStr ''log_expense''"
    and "read_prop parsed ''execution_status'' \<noteq> JStr ''ERROR''"
    and "read_prop parsed ''execution_status'' \<noteq> JStr ''CLARIFICATION_NEEDED''"
  shows "dispatch clk parsed s = log_expense clk parsed s"
proof -
  from assms(1) have "truthy parsed"
    by (rule read_prop_truthy)
  with assms show ?thesis
    by (simp add: dispatch_def)
qed

lemma get_updatedExpenses:
  "get (NextResponse_json [(''reply'', r), (''updatedExpenses'', v)]) ''updatedExpenses''
     = stringify v"
  by (simp add: NextResponse_json_def get_def)

section \<open>Dates of logged expenses\<close>

lemma is_digit_digit_char: "n < 10 \<Longrightarrow> is_digit (digit_char n)"
proof -
  have "list_all (\<lambda>d. is_digit (digit_char d)) [0..<10]"
    by (simp add: upt_rec digit_char_def is_digit_def)
  moreover assume "n < 10"
  then have "n \<in> set [0..<10]"
    by simp
  ultimately show ?thesis
    unfolding list_all_iff by blast
qed

lemma toString_nat_digits: "list_all is_digit (toString_nat n)"
proof (induction n rule: toString_nat.induct)
  case (1 n)
  show ?case
  proof (cases "n < 10")
    case True
    then show ?thesis
      by (simp add: toString_nat.simps [of n] is_digit_digit_char)
  next
    case False
    with 1 show ?thesis
      by (simp add: toString_nat.simps [of n] is_digit_digit_char)
  qed
qed

lemma length_toString_nat: "n < 10 ^ k \<Longrightarrow> 0 < k \<Longrightarrow> length (toString_nat n) \<le> k"
proof (induction k arbitrary: n)
  case 0
  then show ?case by simp
next
  case (Suc k)
  show ?case
  proof (cases "n < 10")
    case True
    then show ?thesis
      by (simp add: toString_nat.simps [of n])
  next
    case False
    with Suc.prems have k: "0 < k"
      by (cases k) auto
    from Suc.prems have "n div 10 < 10 ^ k"
      by (simp add: less_mult_imp_div_less mult.commute)
    from Suc.IH [OF this k] False show ?thesis
      by (simp add: toString_nat.simps [of n])
  qed
qed

lemma addLeadingZeros_shape:
  assumes "n < 10 ^ k" and "0 < k"
  shows "length (addLeadingZeros n k) = k \<and> list_all is_digit (addLeadingZeros n k)"
proof -
  from length_toString_nat [OF assms] have "length (toString_nat n) \<le> k" .
  moreover have "is_digit (CHR ''0'')"
    by (simp add: is_digit_def)
  moreover have "\<forall>c \<in> set (toString_nat n). is_digit c"
    using toString_nat_digits [of n] by (simp add: list_all_iff)
  ultimately show ?thesis
    by (auto simp: addLeadingZeros_def padStart_def list_all_iff)
qed

lemma ddMMyyyy_shape:
  assumes "length a = 2" "length b = 2" "length c = 4"
    and "list_all is_digit a" "list_all is_digit b" "list_all is_digit c"
  shows "is_ddMMyyyy (a @ ''-'' @ b @ ''-'' @ c)"
proof -
  from assms(1) obtain a1 a2 where a: "a = [a1, a2]"
    by (cases a; cases "tl a"; cases "tl (tl a)") auto
  from assms(2) obtain b1 b2 where b: "b = [b1, b2]"
    by (cases b; cases "tl b"; cases "tl (tl b)") auto
  from assms(3,4,5,6) show ?thesis
    unfolding a b by (simp add: is_ddMMyyyy_def)
qed

lemma format_ddMMyyyy_shape:
  assumes "day_of_month clk \<le> 31" "month_of_year clk \<le> 12" "full_year clk \<le> 9999"
  shows "is_ddMMyyyy (format_ddMMyyyy clk)"
proof -
  from assms have "day_of_month clk < 10 ^ 2" "month_of_year clk < 10 ^ 2"
      "full_year clk < 10 ^ 4"
    by simp_all
  then show ?thesis
    unfolding format_ddMMyyyy_def
    by (intro ddMMyyyy_shape) (simp_all add: addLeadingZeros_shape)
qed

text \<open>
  Claim C7, as amended. For a log_expense answer that reaches the switch with its
  data present, the date of the new expense is the model's \<open>date\<close> value itself when
  that value is truthy, in whatever format the model wrote it, and otherwise (no date,
  null or the empty string) today's date as \<open>format\<close> renders it. For a calendar date
  with a year of at most four digits the rendered date has the shape dd-MM-yyyy.
\<close>

theorem log_expense_date:
  assumes "parsed = callAdvancedOllama ollama (message req) (context_of (hydrate req s))"
    and "read_prop parsed ''intent'' = JStr ''log_expense''"
    and "read_prop parsed ''execution_status'' \<noteq> JStr ''ERROR''"
    and "read_prop parsed ''execution_status'' \<noteq> JStr ''CLARIFICATION_NEEDED''"
    and "\<not> nullish (read_prop parsed ''data'')"
  shows "\<exists>e. expenses (snd (POST ollama clk req s)) = e # expenses (hydrate req s)
         \<and> (truthy (read_prop (read_prop parsed ''data'') ''date'') \<longrightarrow>
              get e ''date'' = read_prop (read_prop parsed ''data'') ''date'')
         \<and> (\<not> truthy (read_prop (read_prop parsed ''data'') ''date'') \<longrightarrow>
              get e ''date'' = JStr (format_ddMMyyyy clk)
              \<and> (day_of_month clk \<le> 31 \<and> month_of_year clk \<le> 12 \<and> full_year clk \<le> 9999
                   \<longrightarrow> is_ddMMyyyy (format_ddMMyyyy clk)))"
proof -
  have P: "POST ollama clk req s = log_expense clk parsed (hydrate req s)"
    using assms(1) dispatch_log_expense [OF assms(2,3,4)] by (simp add: POST_def Let_def)
  let ?e = "newExpense clk (read_prop parsed ''data'')"
  have "expenses (snd (POST ollama clk req s)) = ?e # expenses (hydrate req s)"
    unfolding P log_expense_result [OF assms(5)] by simp
  then show ?thesis
    by (intro exI [of _ ?e]) (simp add: get_newExpense format_ddMMyyyy_shape)
qed

text \<open>The theorem at an answer without a date, on the second of November 2026.\<close>

theorem log_expense_date_witness:
  "\<not> truthy (read_prop (read_prop coffee_answer ''data'') ''date'')
   \<and> day_of_month example_clock \<le> 31 \<and> month_of_year example_clock \<le> 12
   \<and> full_year example_clock \<le> 9999
   \<and> map (\<lambda>e. get e ''date'')
        (expenses (snd (POST (\<lambda>m c. Parsed coffee_answer) example_clock budget_only_request
                          initial_store)))
       = [JStr ''02-11-2026'']
   \<and> is_ddMMyyyy ''02-11-2026''"
proof -
  have a: "coffee_answer = callAdvancedOllama (\<lambda>m c. Parsed coffee_answer)
             (message budget_only_request)
             (context_of (hydrate budget_only_request initial_store))"
    by (simp add: callAdvancedOllama_def)
  have b: "read_prop coffee_answer ''intent'' = JStr ''log_expense''"
    by (simp add: coffee_answer_def read_prop_def get_def)
  have c: "read_prop coffee_answer ''execution_status'' \<noteq> JStr ''ERROR''"
    by (simp add: coffee_answer_def read_prop_def get_def)
  have d: "read_prop coffee_answer ''execution_status'' \<noteq> JStr ''CLARIFICATION_NEEDED''"
    by (simp add: coffee_answer_def read_prop_def get_def)
  have e: "\<not> nullish (read_prop coffee_answer ''data'')"
    by (simp add: coffee_answer_def read_prop_def get_def nullish_def)
  have f: "\<not> truthy (read_prop (read_prop coffee_answer ''data'') ''date'')"
    by (simp add: coffee_answer_def read_prop_def get_def)
  have g: "day_of_month example_clock \<le> 31 \<and> month_of_year example_clock \<le> 12
      \<and> full_year example_clock \<le> 9999"
    by (simp add: example_clock_def)
  have h: "format_ddMMyyyy example_clock = ''02-11-2026''"
    by (simp add: format_ddMMyyyy_def addLeadingZeros_def padStart_def toString_nat.simps
        digit_char_def example_clock_def)
  have i: "expenses (hydrate budget_only_request initial_store) = []"
    by (simp add: hydrate_def budget_only_request_def initial_store_def)
  from log_expense_date [OF a b c d e, of example_clock] f g
  obtain x where x:
    "expenses (snd (POST (\<lambda>m c. Parsed coffee_answer) example_clock budget_only_request
                      initial_store)) = x # expenses (hydrate budget_only_request initial_store)"
    "get x ''date'' = JStr (format_ddMMyyyy example_clock)"
    "is_ddMMyyyy (format_ddMMyyyy example_clock)"
    by blast
  from x f g show ?thesis
    unfolding h i by simp
qed

text \<open>
  Claim C7, as stated, fails. The model answers a log_expense request with the date
  \<open>2024-01-05\<close>; the new expense is stored with that date, which is not of the shape
  dd-MM-yyyy.
\<close>

theorem log_expense_date_counterexample:
  "map (\<lambda>e. get e ''date'')
     (expenses (snd (POST (\<lambda>m c. Parsed groceries_answer) example_clock budget_only_request
                       initial_store)))
     = [JStr ''2024-01-05'']
   \<and> \<not> is_ddMMyyyy ''2024-01-05''"
proof -
  have b: "read_prop groceries_answer ''intent'' = JStr ''log_expense''"
    by (simp add: groceries_answer_def read_prop_def get_def)
  have c: "read_prop groceries_answer ''execution_status'' \<noteq> JStr ''ERROR''"
    by (simp add: groceries_answer_def read_prop_def get_def)
  have d: "read_prop groceries_answer ''execution_status'' \<noteq> JStr ''CLARIFICATION_NEEDED''"
    by (simp add: groceries_answer_def read_prop_def get_def)
  have e: "\<not> nullish (read_prop groceries_answer ''data'')"
    by (simp add: groceries_answer_def read_prop_def get_def nullish_def)
  have P: "POST (\<lambda>m c. Parsed groceries_answer) example_clock budget_only_request initial_store
           = log_expense example_clock groceries_answer
               (hydrate budget_only_request initial_store)"
    using dispatch_log_expense [OF b c d] by (simp add: POST_def Let_def callAdvancedOllama_def)
  have i: "expenses (hydrate budget_only_request initial_store) = []"
    by (simp add: hydrate_def budget_only_request_def initial_store_def)
  have r: "read_prop (read_prop groceries_answer ''data'') ''date'' = JStr ''2024-01-05''"
    by (simp add: groceries_answer_def read_prop_def get_def)
  have "map (\<lambda>e. get e ''date'')
     (expenses (snd (POST (\<lambda>m c. Parsed groceries_answer) example_clock budget_only_request
                       initial_store)))
     = [JStr ''2024-01-05'']"
    unfolding P log_expense_result [OF e] by (simp add: i get_newExpense r)
  moreover have "\<not> is_ddMMyyyy ''2024-01-05''"
    by (simp add: is_ddMMyyyy_def is_digit_def)
  ultimately show ?thesis
    by simp
qed

section \<open>The entries endpoint: setting a budget\<close>

lemma read_prop_truthy': "truthy (read_prop v k) \<Longrightarrow> truthy v"
  by (cases v) (simp_all add: read_prop_def)

lemma dispatch_set_budget:
  assumes "read_prop parsed ''intent'' = JStr ''set_budget''"
    and "read_prop parsed ''execution_status'' \<noteq> JStr ''ERROR''"
    and "read_prop parsed ''execution_status'' \<noteq> JStr ''CLARIFICATION_NEEDED''"
  shows "dispatch clk parsed s = set_budget parsed s"
proof -
  from assms(1) have "truthy parsed"
    by (rule read_prop_truthy)
  with assms show ?thesis
    by (simp add: dispatch_def)
qed

lemma set_budget_throws:
  "nullish (read_prop parsed ''data'') \<or>
   (truthy (read_prop (read_prop parsed ''data'') ''category'')
      \<and> (\<forall>cs. read_prop (read_prop parsed ''data'') ''category'' \<noteq> JStr cs))
   \<Longrightarrow> set_budget parsed s = (Inl TypeError, s)"
  by (cases "read_prop (read_prop parsed ''data'') ''category''")
     (auto simp: set_budget_def Let_def)

lemma set_budget_returns:
  assumes "\<not> nullish (read_prop parsed ''data'')"
    and "\<not> truthy (read_prop (read_prop parsed ''data'') ''category'')
         \<or> (\<exists>cs. read_prop (read_prop parsed ''data'') ''category'' = JStr cs)"
  shows "set_budget parsed s =
     (Inr (NextResponse_json
        [(''reply'', read_prop parsed ''reply''),
         (''updatedBudget'',
          budget_value (assign_prop (budget s)
                  (budget_key (read_prop (read_prop parsed ''data'') ''category''))
                  (read_prop (read_prop parsed ''data'') ''amount'')))]),
      s\<lparr>budget := assign_prop (budget s)
                  (budget_key (read_prop (read_prop parsed ''data'') ''category''))
                  (read_prop (read_prop parsed ''data'') ''amount'')\<rparr>)"
proof (cases "read_prop (read_prop parsed ''data'') ''category''")
  case (JStr cs)
  with assms(1) show ?thesis
    by (simp add: set_budget_def Let_def budget_key_def spread_Nil setBudget_def getBudget_def)
qed (use assms in \<open>simp_all add: set_budget_def Let_def budget_key_def spread_Nil
      setBudget_def getBudget_def\<close>)

lemma map_of_assign_prop_other:
  "k \<noteq> key \<Longrightarrow> map_of (assign_prop ob key v) k = map_of ob k"
  by (simp add: assign_prop_def update_conv')

lemma map_of_assign_prop_same:
  "key \<noteq> ''__proto__'' \<Longrightarrow> map_of (assign_prop ob key v) key = Some v"
  by (simp add: assign_prop_def update_conv')

lemma hydrate_budget: "budget (hydrate req s) = budget s"
  by (simp add: hydrate_def setExpensesForRequest_def split: option.splits list.splits)

text \<open>
  Claim C10, as amended. For a set_budget answer that reaches the switch, every entry
  of the budget map other than the named one (the category when a category other than
  \<open>total\<close>, compared case-insensitively, is given, and \<open>total\<close> otherwise) is after the
  request what it was before. When the handler returns a response (the data is
  present and the category is a string or falsy) and the named entry is not
  \<open>__proto__\<close>, the named entry holds the requested amount and the response carries the
  new map as \<open>updatedBudget\<close>.
\<close>

theorem set_budget_frame:
  assumes "parsed = callAdvancedOllama ollama (message req) (context_of (hydrate req s))"
    and "read_prop parsed ''intent'' = JStr ''set_budget''"
    and "read_prop parsed ''execution_status'' \<noteq> JStr ''ERROR''"
    and "read_prop parsed ''execution_status'' \<noteq> JStr ''CLARIFICATION_NEEDED''"
    and "d = read_prop parsed ''data''"
  shows "(\<forall>k. k \<noteq> budget_key (read_prop d ''category'') \<longrightarrow>
            map_of (budget (snd (POST ollama clk req s))) k = map_of (budget s) k)
       \<and> (\<not> nullish d
            \<and> (\<not> truthy (read_prop d ''category'') \<or> (\<exists>cs. read_prop d ''category'' = JStr cs))
            \<and> budget_key (read_prop d ''category'') \<noteq> ''__proto__''
          \<longrightarrow> map_of (budget (snd (POST ollama clk req s))) (budget_key (read_prop d ''category''))
                = Some (read_prop d ''amount'')
              \<and> (\<exists>body. fst (POST ollama clk req s) = Inr body
                    \<and> get body ''updatedBudget''
                        = stringify (budget_value (budget (snd (POST ollama clk req s))))))"
proof -
  have P: "POST ollama clk req s = set_budget parsed (hydrate req s)"
    using assms(1) dispatch_set_budget [OF assms(2,3,4)] by (simp add: POST_def Let_def)
  show ?thesis
  proof (cases "\<not> nullish d
            \<and> (\<not> truthy (read_prop d ''category'') \<or> (\<exists>cs. read_prop d ''category'' = JStr cs))")
    case True
    then have r: "\<not> nullish (read_prop parsed ''data'')"
        "\<not> truthy (read_prop (read_prop parsed ''data'') ''category'')
         \<or> (\<exists>cs. read_prop (read_prop parsed ''data'') ''category'' = JStr cs)"
      using assms(5) by simp_all
    show ?thesis
      unfolding P set_budget_returns [OF r] assms(5)
      by (simp add: map_of_assign_prop_other map_of_assign_prop_same hydrate_budget
          get_def NextResponse_json_def)
  next
    case False
    then have "nullish (read_prop parsed ''data'') \<or>
      (truthy (read_prop (read_prop parsed ''data'') ''category'')
        \<and> (\<forall>cs. read_prop (read_prop parsed ''data'') ''category'' \<noteq> JStr cs))"
      using assms(5) by auto
    from set_budget_throws [OF this] False show ?thesis
      unfolding P by (auto simp: hydrate_budget)
  qed
qed

text \<open>
  The theorem at a request to set the Food budget to 12000, on the initial budget
  \<open>{total: 50000, Food: 15000, Entertainment: 5000}\<close>.
\<close>

theorem set_budget_frame_witness:
  "budget_key (JStr ''Food'') = ''Food''
   \<and> \<not> nullish (read_prop (food_budget_answer 12000) ''data'')
   \<and> map_of (budget (snd (POST (\<lambda>m c. Parsed (food_budget_answer 12000)) example_clock
                            list_request initial_store))) ''Food'' = Some (JNum 12000)
   \<and> map_of (budget (snd (POST (\<lambda>m c. Parsed (food_budget_answer 12000)) example_clock
                            list_request initial_store))) ''total'' = Some (JNum 50000)
   \<and> map_of (budget (snd (POST (\<lambda>m c. Parsed (food_budget_answer 12000)) example_clock
                            list_request initial_store))) ''Entertainment'' = Some (JNum 5000)"
proof -
  let ?p = "food_budget_answer 12000"
  have a: "?p = callAdvancedOllama (\<lambda>m c. Parsed ?p)
             (message list_request) (context_of (hydrate list_request initial_store))"
    by (simp add: callAdvancedOllama_def)
  have b: "read_prop ?p ''intent'' = JStr ''set_budget''"
    by (simp add: food_budget_answer_def read_prop_def get_def)
  have c: "read_prop ?p ''execution_status'' \<noteq> JStr ''ERROR''"
    by (simp add: food_budget_answer_def read_prop_def get_def)
  have d: "read_prop ?p ''execution_status'' \<noteq> JStr ''CLARIFICATION_NEEDED''"
    by (simp add: food_budget_answer_def read_prop_def get_def)
  have e: "\<not> nullish (read_prop ?p ''data'')"
    by (simp add: food_budget_answer_def read_prop_def get_def nullish_def)
  have f: "read_prop (read_prop ?p ''data'') ''category'' = JStr ''Food''"
    by (simp add: food_budget_answer_def read_prop_def get_def)
  have g: "read_prop (read_prop ?p ''data'') ''amount'' = JNum 12000"
    by (simp add: food_budget_answer_def read_prop_def get_def)
  have k: "budget_key (JStr ''Food'') = ''Food''"
    by (simp add: budget_key_def toLowerCase_def toLowerCase_char_def)
  note t = set_budget_frame [OF a b c d refl, of example_clock, unfolded f g k]
  from t e have 1: "map_of (budget (snd (POST (\<lambda>m c. Parsed ?p) example_clock
                            list_request initial_store))) ''Food'' = Some (JNum 12000)"
    by simp
  from t have 2: "map_of (budget (snd (POST (\<lambda>m c. Parsed ?p) example_clock
                            list_request initial_store))) ''total''
                = map_of (budget initial_store) ''total''"
    by simp
  from t have 3: "map_of (budget (snd (POST (\<lambda>m c. Parsed ?p) example_clock
                            list_request initial_store))) ''Entertainment''
                = map_of (budget initial_store) ''Entertainment''"
    by simp
  from k e 1 2 3 show ?thesis
    by (simp add: initial_store_def)
qed

text \<open>
  Claim C10, as stated, fails. A request to set the Food budget to 15000, the limit
  the initial budget already has: the budget map after the request is the map before
  it, so the two differ in no entry.
\<close>

theorem set_budget_same_amount_counterexample:
  "budget initial_store
     = [(''total'', JNum 50000), (''Food'', JNum 15000), (''Entertainment'', JNum 5000)]
   \<and> fst (POST (\<lambda>m c. Parsed (food_budget_answer 15000)) example_clock list_request
             initial_store)
     = Inr [(''reply'', JStr ''Done.''),
            (''updatedBudget'',
             JObj 0 [(''total'', JNum 50000), (''Food'', JNum 15000),
                   (''Entertainment'', JNum 5000)])]
   \<and> budget (snd (POST (\<lambda>m c. Parsed (food_budget_answer 15000)) example_clock list_request
                     initial_store))
     = budget initial_store"
proof -
  let ?p = "food_budget_answer 15000"
  have b: "read_prop ?p ''intent'' = JStr ''set_budget''"
    by (simp add: food_budget_answer_def read_prop_def get_def)
  have c: "read_prop ?p ''execution_status'' \<noteq> JStr ''ERROR''"
    by (simp add: food_budget_answer_def read_prop_def get_def)
  have d: "read_prop ?p ''execution_status'' \<noteq> JStr ''CLARIFICATION_NEEDED''"
    by (simp add: food_budget_answer_def read_prop_def get_def)
  have e: "\<not> nullish (read_prop ?p ''data'')"
    by (simp add: food_budget_answer_def read_prop_def get_def nullish_def)
  have f: "read_prop (read_prop ?p ''data'') ''category'' = JStr ''Food''"
    by (simp add: food_budget_answer_def read_prop_def get_def)
  have g: "read_prop (read_prop ?p ''data'') ''amount'' = JNum 15000"
    by (simp add: food_budget_answer_def read_prop_def get_def)
  have r: "read_prop ?p ''reply'' = JStr ''Done.''"
    by (simp add: food_budget_answer_def read_prop_def get_def)
  have k: "budget_key (JStr ''Food'') = ''Food''"
    by (simp add: budget_key_def toLowerCase_def toLowerCase_char_def)
  have e': "\<not> truthy (read_prop (read_prop ?p ''data'') ''category'')
         \<or> (\<exists>cs. read_prop (read_prop ?p ''data'') ''category'' = JStr cs)"
    using f by simp
  have P: "POST (\<lambda>m c. Parsed ?p) example_clock list_request initial_store
           = set_budget ?p (hydrate list_request initial_store)"
    using dispatch_set_budget [OF b c d] by (simp add: POST_def Let_def callAdvancedOllama_def)
  show ?thesis
    unfolding P set_budget_returns [OF e e'] f g k r
    by (simp add: hydrate_budget initial_store_def assign_prop_def NextResponse_json_def
        budget_value_def)
qed

section \<open>The entries endpoint: guards and branches\<close>

lemma dispatch_proceeds:
  assumes "truthy (read_prop parsed ''intent'')"
    and "read_prop parsed ''execution_status'' \<noteq> JStr ''ERROR''"
    and "read_prop parsed ''execution_status'' \<noteq> JStr ''CLARIFICATION_NEEDED''"
  shows "dispatch clk parsed s =
     (if read_prop parsed ''intent'' = JStr ''log_expense'' then log_expense clk parsed s
      else if read_prop parsed ''intent'' = JStr ''update_last_expense''
      then update_last_expense parsed s
      else if read_prop parsed ''intent'' = JStr ''get_summary'' then get_summary parsed s
      else if read_prop parsed ''intent'' = JStr ''set_budget'' then set_budget parsed s
      else if read_prop parsed ''intent'' = JStr ''get_advice'' then get_advice parsed s
      else (Inr [(''reply'', JStr reply_not_sure)], s))"
proof -
  from assms(1) have "truthy parsed"
    by (rule read_prop_truthy')
  with assms show ?thesis
    by (simp add: dispatch_def NextResponse_json_def)
qed

lemma dispatch_error:
  "read_prop parsed ''execution_status'' = JStr ''ERROR'' \<Longrightarrow>
   dispatch clk parsed s = (Inr [(''reply'', JStr reply_not_understood)], s)"
  by (simp add: dispatch_def NextResponse_json_def)

lemma dispatch_clarification:
  assumes "truthy (read_prop parsed ''intent'')"
    and "read_prop parsed ''execution_status'' = JStr ''CLARIFICATION_NEEDED''"
  shows "dispatch clk parsed s =
     (Inr (NextResponse_json
        [(''reply'', read_prop parsed ''reply''), (''data'', read_prop parsed ''data'')]), s)"
proof -
  from assms(1) have "truthy parsed"
    by (rule read_prop_truthy')
  with assms show ?thesis
    by (simp add: dispatch_def)
qed

lemma update_last_expense_none:
  "lastTransaction s = None \<Longrightarrow>
   update_last_expense parsed s = (Inr [(''reply'', JStr reply_no_recent_transaction)], s)"
  by (simp add: update_last_expense_def getLastTransaction_def NextResponse_json_def)

lemma update_last_expense_not_found:
  "lastTransaction s = Some lt \<Longrightarrow> findIndex (has_id (get lt ''id'')) (expenses s) = None \<Longrightarrow>
   update_last_expense parsed s = (Inr [(''reply'', JStr reply_not_found)], s)"
  by (simp add: update_last_expense_def getLastTransaction_def NextResponse_json_def
      updateExpenseById_def)

lemma update_last_expense_found:
  assumes "lastTransaction s = Some lt"
    and "findIndex (has_id (get lt ''id'')) (expenses s) = Some k"
  shows "update_last_expense parsed s =
     (Inr (NextResponse_json
        [(''reply'', read_prop parsed ''reply''),
         (''updatedExpenses'', expenses_value (expenses (snd (update_last_expense parsed s))))]),
      snd (update_last_expense parsed s))"
proof -
  have "fst (updateExpenseById (get lt ''id'') (read_prop parsed ''data'') s) = True"
    using assms(2) by (simp add: updateExpenseById_def Let_def)
  then obtain s1 where
    "updateExpenseById (get lt ''id'') (read_prop parsed ''data'') s = (True, s1)"
    by (cases "updateExpenseById (get lt ''id'') (read_prop parsed ''data'') s") simp
  with assms(1) show ?thesis
    by (simp add: update_last_expense_def getLastTransaction_def Let_def getExpenses_def)
qed

lemma get_summary_result:
  "get_summary parsed s =
     (if nullish (read_prop parsed ''data'') then (Inl TypeError, s)
      else (Inr (NextResponse_json
                   [(''reply'', read_prop parsed ''reply''),
                    (''summaryData'', read_prop (read_prop parsed ''data'') ''result'')]), s))"
  by (simp add: get_summary_def Let_def)

lemma response_two:
  "k \<noteq> ''reply'' \<Longrightarrow>
   get (NextResponse_json [(''reply'', r), (k, v)]) ''reply'' = stringify r
   \<and> get (NextResponse_json [(''reply'', r), (k, v)]) k = stringify v
   \<and> fst ` set (NextResponse_json [(''reply'', r), (k, v)]) \<subseteq> {''reply'', k}
   \<and> (k \<in> fst ` set (NextResponse_json [(''reply'', r), (k, v)]) \<longleftrightarrow> v \<noteq> JUndefined)"
  by (auto simp: NextResponse_json_def get_def)

lemma response_one:
  "get (NextResponse_json [(''reply'', r)]) ''reply'' = stringify r
   \<and> fst ` set (NextResponse_json [(''reply'', r)]) \<subseteq> {''reply''}"
  by (auto simp: NextResponse_json_def get_def)

section \<open>The store after a request\<close>

text \<open>
  Identifiers that are objects are compared by reference: of two expenses whose
  identifiers have the same content, the update reaches the one that holds the
  reference it was given.
\<close>

lemma updateExpenseById_by_reference:
  "updateExpenseById (JObj 4 [(''n'', JNum 1)]) (JObj 3 [(''amount'', JNum 99)]) object_id_store
     = (True,
        object_id_store\<lparr>expenses :=
          [[(''id'', JObj 5 [(''n'', JNum 1)])],
           [(''id'', JObj 4 [(''n'', JNum 1)]), (''amount'', JNum 99)]]\<rparr>)"
  by (simp add: updateExpenseById_def object_id_store_def has_id_def get_def spread_def Let_def)

lemma updateExpenseById_budget:
  "budget (snd (updateExpenseById i u s)) = budget s"
  by (simp add: updateExpenseById_def Let_def split: option.splits)

lemma update_last_expense_found_store:
  assumes "lastTransaction s = Some lt"
    and "findIndex (has_id (get lt ''id'')) (expenses s) = Some k"
  shows "snd (update_last_expense parsed s) =
     s\<lparr>expenses := (expenses s)[k := spread (expenses s ! k)
                                         (own_props (read_prop parsed ''data''))],
       lastTransaction := Some (spread lt (own_props (read_prop parsed ''data'')))\<rparr>"
  using assms
  by (simp add: update_last_expense_def getLastTransaction_def updateExpenseById_def
      updateLastTransaction_def Let_def)

text \<open>
  The store after the intent has been handled: the store it was handled on, unless
  the answer reaches the switch with the intent log_expense, update_last_expense or
  set_budget and the branch gets as far as writing.
\<close>

lemma dispatch_store_cases:
  "snd (dispatch clk parsed h) = h
   \<or> (reaches_switch parsed \<and> read_prop parsed ''intent'' = JStr ''log_expense''
        \<and> \<not> nullish (read_prop parsed ''data'')
        \<and> snd (dispatch clk parsed h)
            = h\<lparr>expenses := newExpense clk (read_prop parsed ''data'') # expenses h,
                lastTransaction := Some (newExpense clk (read_prop parsed ''data''))\<rparr>)
   \<or> (reaches_switch parsed \<and> read_prop parsed ''intent'' = JStr ''update_last_expense''
        \<and> (\<exists>lt k. lastTransaction h = Some lt
              \<and> findIndex (has_id (get lt ''id'')) (expenses h) = Some k
              \<and> snd (dispatch clk parsed h)
                  = h\<lparr>expenses := (expenses h)[k := spread (expenses h ! k)
                                            (own_props (read_prop parsed ''data''))],
                      lastTransaction :=
                        Some (spread lt (own_props (read_prop parsed ''data'')))\<rparr>))
   \<or> (reaches_switch parsed \<and> read_prop parsed ''intent'' = JStr ''set_budget''
        \<and> snd (dispatch clk parsed h)
            = h\<lparr>budget := assign_prop (budget h)
                  (budget_key (read_prop (read_prop parsed ''data'') ''category''))
                  (read_prop (read_prop parsed ''data'') ''amount'')\<rparr>)"
proof (cases "reaches_switch parsed")
  case False
  then consider "\<not> truthy (read_prop parsed ''intent'')"
    | "read_prop parsed ''execution_status'' = JStr ''ERROR''"
    | "truthy (read_prop parsed ''intent'')"
      "read_prop parsed ''execution_status'' = JStr ''CLARIFICATION_NEEDED''"
    by (auto simp: reaches_switch_def)
  then have "snd (dispatch clk parsed h) = h"
    by cases (simp_all add: dispatch_no_intent dispatch_error dispatch_clarification)
  then show ?thesis
    by simp
next
  case True
  then have D: "dispatch clk parsed h =
     (if read_prop parsed ''intent'' = JStr ''log_expense'' then log_expense clk parsed h
      else if read_prop parsed ''intent'' = JStr ''update_last_expense''
      then update_last_expense parsed h
      else if read_prop parsed ''intent'' = JStr ''get_summary'' then get_summary parsed h
      else if read_prop parsed ''intent'' = JStr ''set_budget'' then set_budget parsed h
      else if read_prop parsed ''intent'' = JStr ''get_advice'' then get_advice parsed h
      else (Inr [(''reply'', JStr reply_not_sure)], h))"
    by (simp add: reaches_switch_def dispatch_proceeds)
  let ?i = "read_prop parsed ''intent''"
  consider (log) "?i = JStr ''log_expense''"
    | (upd) "?i = JStr ''update_last_expense''"
    | (bud) "?i = JStr ''set_budget''"
    | (rest) "?i \<noteq> JStr ''log_expense''" "?i \<noteq> JStr ''update_last_expense''"
        "?i \<noteq> JStr ''set_budget''"
    by blast
  then show ?thesis
  proof cases
    case log
    show ?thesis
    proof (cases "nullish (read_prop parsed ''data'')")
      case True
      with log D have "snd (dispatch clk parsed h) = h"
        by (simp add: log_expense_def)
      then show ?thesis by simp
    next
      case False
      with log D \<open>reaches_switch parsed\<close> show ?thesis
        by (simp add: log_expense_result)
    qed
  next
    case upd
    with D have U: "dispatch clk parsed h = update_last_expense parsed h"
      by simp
    show ?thesis
    proof (cases "lastTransaction h")
      case None
      then have "snd (dispatch clk parsed h) = h"
        unfolding U by (simp add: update_last_expense_none)
      then show ?thesis by simp
    next
      case (Some lt)
      show ?thesis
      proof (cases "findIndex (has_id (get lt ''id'')) (expenses h)")
        case None
        with Some have "snd (dispatch clk parsed h) = h"
          unfolding U by (simp add: update_last_expense_not_found)
        then show ?thesis by simp
      next
        case (Some k)
        from update_last_expense_found_store [OF \<open>lastTransaction h = Some lt\<close> Some, of parsed]
          \<open>lastTransaction h = Some lt\<close> Some upd \<open>reaches_switch parsed\<close>
        show ?thesis
          unfolding U by blast
      qed
    qed
  next
    case bud
    with D have B: "dispatch clk parsed h = set_budget parsed h"
      by simp
    show ?thesis
    proof (cases "nullish (read_prop parsed ''data'') \<or>
        (truthy (read_prop (read_prop parsed ''data'') ''category'')
          \<and> (\<forall>cs. read_prop (read_prop parsed ''data'') ''category'' \<noteq> JStr cs))")
      case True
      from set_budget_throws [OF this, of h] have "snd (dispatch clk parsed h) = h"
        unfolding B by simp
      then show ?thesis by simp
    next
      case False
      then have r: "\<not> nullish (read_prop parsed ''data'')"
        "\<not> truthy (read_prop (read_prop parsed ''data'') ''category'')
         \<or> (\<exists>cs. read_prop (read_prop parsed ''data'') ''category'' = JStr cs)"
        by blast+
      from set_budget_returns [OF r, of h] bud \<open>reaches_switch parsed\<close> show ?thesis
        unfolding B by simp
    qed
  next
    case rest
    with D have "snd (dispatch clk parsed h) = h"
      by (simp add: get_summary_result get_advice_def)
    then show ?thesis by simp
  qed
qed

lemma dispatch_budget_frame:
  assumes "\<not> (reaches_switch parsed \<and> read_prop parsed ''intent'' = JStr ''set_budget'')"
  shows "budget (snd (dispatch clk parsed h)) = budget h"
  using dispatch_store_cases [of clk parsed h] assms by auto

lemma dispatch_expenses_frame:
  assumes "\<not> (reaches_switch parsed
              \<and> (read_prop parsed ''intent'' = JStr ''log_expense''
                  \<or> read_prop parsed ''intent'' = JStr ''update_last_expense''))"
  shows "expenses (snd (dispatch clk parsed h)) = expenses h
         \<and> lastTransaction (snd (dispatch clk parsed h)) = lastTransaction h"
  using dispatch_store_cases [of clk parsed h] assms by auto

section \<open>Updates of an expense: what is left as it was\<close>

text \<open>
  Claim C9, as amended. For every call of \<open>updateExpenseById\<close> the length of the list
  is unchanged and every position other than the first match holds what it held, so
  the order is kept; when no element has the given identifier the call returns false
  and the store is the one it was given. The identifiers are unchanged whenever the
  updates carry no \<open>id\<close>. The declared type of the updates leaves \<open>id\<close> out, but the
  updates are spread as they are at run time: an \<open>id\<close> among them becomes the
  identifier of the first match.
\<close>

theorem updateExpenseById_frame:
  "(''id'' \<notin> fst ` set (own_props updates) \<longrightarrow>
      map (\<lambda>e. get e ''id'') (expenses (snd (updateExpenseById i updates s)))
        = map (\<lambda>e. get e ''id'') (expenses s))
   \<and> (\<forall>k v. findIndex (has_id i) (expenses s) = Some k
            \<and> map_of (own_props updates) ''id'' = Some v \<longrightarrow>
          get (expenses (snd (updateExpenseById i updates s)) ! k) ''id'' = v)
   \<and> length (expenses (snd (updateExpenseById i updates s))) = length (expenses s)
   \<and> (\<forall>j. findIndex (has_id i) (expenses s) \<noteq> Some j \<longrightarrow>
          expenses (snd (updateExpenseById i updates s)) ! j = expenses s ! j)
   \<and> ((\<forall>e \<in> set (expenses s). \<not> has_id i e) \<longrightarrow>
          updateExpenseById i updates s = (False, s))"
proof (cases "findIndex (has_id i) (expenses s)")
  case None
  then show ?thesis
    by (simp add: updateExpenseById_def)
next
  case (Some k)
  note kk = findIndex_SomeD [OF Some]
  note ex = updateExpenseById_expenses [OF Some, of updates]
  have ids: "''id'' \<notin> fst ` set (own_props updates) \<longrightarrow>
      map (\<lambda>e. get e ''id'') ((expenses s)[k := spread (expenses s ! k) (own_props updates)])
        = map (\<lambda>e. get e ''id'') (expenses s)"
    using kk by (simp add: map_update get_spread_absent list_update_same_conv)
  have new_id: "\<forall>v. map_of (own_props updates) ''id'' = Some v \<longrightarrow>
      get ((expenses s)[k := spread (expenses s ! k) (own_props updates)] ! k) ''id'' = v"
    using kk by (simp add: get_spread)
  have nomatch: "\<not> (\<forall>e \<in> set (expenses s). \<not> has_id i e)"
    using kk by (metis nth_mem)
  then have last: "(\<forall>e \<in> set (expenses s). \<not> has_id i e) \<longrightarrow>
                updateExpenseById i updates s = (False, s)"
    by blast
  from ex ids new_id Some have first:
    "(''id'' \<notin> fst ` set (own_props updates) \<longrightarrow>
      map (\<lambda>e. get e ''id'') (expenses (snd (updateExpenseById i updates s)))
        = map (\<lambda>e. get e ''id'') (expenses s))
     \<and> (\<forall>k v. findIndex (has_id i) (expenses s) = Some k
            \<and> map_of (own_props updates) ''id'' = Some v \<longrightarrow>
          get (expenses (snd (updateExpenseById i updates s)) ! k) ''id'' = v)
     \<and> length (expenses (snd (updateExpenseById i updates s))) = length (expenses s)
     \<and> (\<forall>j. findIndex (has_id i) (expenses s) \<noteq> Some j \<longrightarrow>
          expenses (snd (updateExpenseById i updates s)) ! j = expenses s ! j)"
    by simp
  from first last show ?thesis
    by blast
qed

text \<open>
  The theorem at the three-expense list, once for an identifier that is present and
  once for one that is not.
\<close>

theorem updateExpenseById_frame_witness:
  "''id'' \<notin> fst ` set (own_props (JObj 3 [(''amount'', JNum 99)]))
   \<and> map (\<lambda>e. get e ''id'')
        (expenses (snd (updateExpenseById (JStr ''b'') (JObj 3 [(''amount'', JNum 99)]) two_b_store)))
       = [JStr ''a'', JStr ''b'', JStr ''b'']
   \<and> expenses (snd (updateExpenseById (JStr ''b'') (JObj 3 [(''amount'', JNum 99)]) two_b_store)) ! 2
       = [(''id'', JStr ''b''), (''amount'', JNum 30)]
   \<and> filter (has_id (JStr ''z'')) (expenses two_b_store) = []
   \<and> updateExpenseById (JStr ''z'') (JObj 3 [(''amount'', JNum 99)]) two_b_store
       = (False, two_b_store)"
proof -
  have h: "''id'' \<notin> fst ` set (own_props (JObj 3 [(''amount'', JNum 99)]))"
    by simp
  have fi: "findIndex (has_id (JStr ''b'')) (expenses two_b_store) = Some 1"
    by (simp add: two_b_store_def has_id_def get_def)
  have nz: "\<forall>e \<in> set (expenses two_b_store). \<not> has_id (JStr ''z'') e"
    by (simp add: two_b_store_def has_id_def get_def)
  note b = updateExpenseById_frame [where updates = "JObj 3 [(''amount'', JNum 99)]"
      and i = "JStr ''b''" and s = two_b_store]
  note z = updateExpenseById_frame [where updates = "JObj 3 [(''amount'', JNum 99)]"
      and i = "JStr ''z''" and s = two_b_store]
  from b h have ids: "map (\<lambda>e. get e ''id'')
        (expenses (snd (updateExpenseById (JStr ''b'') (JObj 3 [(''amount'', JNum 99)]) two_b_store)))
       = map (\<lambda>e. get e ''id'') (expenses two_b_store)"
    by blast
  from b fi have third:
    "expenses (snd (updateExpenseById (JStr ''b'') (JObj 3 [(''amount'', JNum 99)]) two_b_store)) ! 2
       = expenses two_b_store ! 2"
    by simp
  from z nz have none: "updateExpenseById (JStr ''z'') (JObj 3 [(''amount'', JNum 99)]) two_b_store
       = (False, two_b_store)"
    by blast
  have "map (\<lambda>e. get e ''id'') (expenses two_b_store) = [JStr ''a'', JStr ''b'', JStr ''b'']"
    by (simp add: two_b_store_def get_def)
  moreover have "expenses two_b_store ! 2 = [(''id'', JStr ''b''), (''amount'', JNum 30)]"
    by (simp add: two_b_store_def)
  moreover have "filter (has_id (JStr ''z'')) (expenses two_b_store) = []"
    by (simp add: two_b_store_def has_id_def get_def)
  ultimately show ?thesis
    using h ids third none by simp
qed

text \<open>
  Claim C9, as stated, fails. Updates that carry an \<open>id\<close> rewrite the identifier of the
  first match: directly, on the three-expense list, and through the endpoint, where an
  update_last_expense answer whose data is \<open>{id: q}\<close> renames the expense the client
  sent.
\<close>

theorem updateExpenseById_id_counterexample:
  "map (\<lambda>e. get e ''id'') (expenses two_b_store) = [JStr ''a'', JStr ''b'', JStr ''b'']
   \<and> map (\<lambda>e. get e ''id'')
        (expenses (snd (updateExpenseById (JStr ''a'') (JObj 2 [(''id'', JStr ''q'')]) two_b_store)))
       = [JStr ''q'', JStr ''b'', JStr ''b'']
   \<and> req_expenses list_request = Some [[(''id'', JStr ''x''), (''category'', JStr ''Food'')]]
   \<and> expenses (snd (POST (\<lambda>m c. Parsed rename_answer) example_clock list_request initial_store))
       = [[(''id'', JStr ''q''), (''category'', JStr ''Food'')]]"
proof -
  have 1: "map (\<lambda>e. get e ''id'') (expenses two_b_store) = [JStr ''a'', JStr ''b'', JStr ''b'']"
    by (simp add: two_b_store_def get_def)
  have 2: "map (\<lambda>e. get e ''id'')
        (expenses (snd (updateExpenseById (JStr ''a'') (JObj 2 [(''id'', JStr ''q'')]) two_b_store)))
       = [JStr ''q'', JStr ''b'', JStr ''b'']"
    by (simp add: updateExpenseById_def two_b_store_def has_id_def get_def spread_def Let_def)
  have 3: "req_expenses list_request = Some [[(''id'', JStr ''x''), (''category'', JStr ''Food'')]]"
    by (simp add: list_request_def)
  let ?h = "hydrate list_request initial_store"
  have i: "read_prop rename_answer ''intent'' = JStr ''update_last_expense''"
    by (simp add: rename_answer_def read_prop_def get_def)
  then have t: "truthy (read_prop rename_answer ''intent'')"
    by simp
  have c: "read_prop rename_answer ''execution_status'' \<noteq> JStr ''ERROR''"
    by (simp add: rename_answer_def read_prop_def get_def)
  have d: "read_prop rename_answer ''execution_status'' \<noteq> JStr ''CLARIFICATION_NEEDED''"
    by (simp add: rename_answer_def read_prop_def get_def)
  have P: "POST (\<lambda>m c. Parsed rename_answer) example_clock list_request initial_store
           = update_last_expense rename_answer ?h"
    by (simp add: POST_def Let_def callAdvancedOllama_def dispatch_proceeds [OF t c d] i)
  have l: "lastTransaction ?h = Some [(''id'', JStr ''x''), (''category'', JStr ''Food'')]"
    by (simp add: hydrate_def list_request_def setExpensesForRequest_def)
  have f: "findIndex (has_id (get [(''id'', JStr ''x''), (''category'', JStr ''Food'')] ''id''))
             (expenses ?h) = Some 0"
    by (simp add: hydrate_def list_request_def setExpensesForRequest_def has_id_def get_def)
  have 4: "expenses (snd (POST (\<lambda>m c. Parsed rename_answer) example_clock list_request
                            initial_store))
       = [[(''id'', JStr ''q''), (''category'', JStr ''Food'')]]"
    unfolding P update_last_expense_found_store [OF l f]
    by (simp add: hydrate_def list_request_def setExpensesForRequest_def rename_answer_def
        read_prop_def get_def spread_def)
  from 1 2 3 4 show ?thesis
    by simp
qed

section \<open>The entries endpoint: what a request replaces\<close>

text \<open>
  Claim C2, as amended. When the request body carries an expense array, the handler
  replaces the store's expense list by that array, and the last transaction by its
  first element (null for an empty array), before the model is called: the model is
  shown the client's list, and the intent is handled on the store that holds it. When
  the body carries no array, the list and the last transaction stay as they were.
  Unless the answer reaches the switch with the intent log_expense or
  update_last_expense, the list after the request is that list. Nothing of the
  request is written to the budget: the response and the store after the request
  are the same whatever budget the body carries, and the budget after the request is
  the budget before it unless the answer reaches the switch with the intent
  set_budget.
\<close>

theorem POST_hydrates_expenses_only:
  assumes "parsed = callAdvancedOllama ollama (message req) (context_of (hydrate req s))"
  shows "(req_expenses req = Some xs \<longrightarrow>
            context_of (hydrate req s)
              = \<lparr> ctx_expenses = xs, ctx_budget = budget s,
                  ctx_lastTransaction = (case xs of [] \<Rightarrow> None | e # _ \<Rightarrow> Some e) \<rparr>
          \<and> POST ollama clk req s =
              dispatch clk parsed
                (s\<lparr>expenses := xs,
                    lastTransaction := (case xs of [] \<Rightarrow> None | e # _ \<Rightarrow> Some e)\<rparr>))
       \<and> (req_expenses req = None \<longrightarrow>
            context_of (hydrate req s)
              = \<lparr> ctx_expenses = expenses s, ctx_budget = budget s,
                  ctx_lastTransaction = lastTransaction s \<rparr>
          \<and> POST ollama clk req s = dispatch clk parsed s)
       \<and> (\<not> (reaches_switch parsed
                \<and> (read_prop parsed ''intent'' = JStr ''log_expense''
                    \<or> read_prop parsed ''intent'' = JStr ''update_last_expense'')) \<longrightarrow>
            expenses (snd (POST ollama clk req s))
              = (case req_expenses req of Some xs \<Rightarrow> xs | None \<Rightarrow> expenses s))
       \<and> POST ollama clk (req\<lparr>req_budget := b\<rparr>) s = POST ollama clk req s
       \<and> (\<not> (reaches_switch parsed \<and> read_prop parsed ''intent'' = JStr ''set_budget'') \<longrightarrow>
            budget (snd (POST ollama clk req s)) = budget s)"
proof -
  have P: "POST ollama clk req s = dispatch clk parsed (hydrate req s)"
    using assms by (simp add: POST_def Let_def)
  have 1: "req_expenses req = Some xs \<longrightarrow>
            context_of (hydrate req s)
              = \<lparr> ctx_expenses = xs, ctx_budget = budget s,
                  ctx_lastTransaction = (case xs of [] \<Rightarrow> None | e # _ \<Rightarrow> Some e) \<rparr>
          \<and> hydrate req s = s\<lparr>expenses := xs,
                    lastTransaction := (case xs of [] \<Rightarrow> None | e # _ \<Rightarrow> Some e)\<rparr>"
    by (simp add: hydrate_def context_of_def setExpensesForRequest_def
        getExpenses_def getBudget_def getLastTransaction_def split: list.splits)
  have 2: "req_expenses req = None \<longrightarrow>
            context_of (hydrate req s)
              = \<lparr> ctx_expenses = expenses s, ctx_budget = budget s,
                  ctx_lastTransaction = lastTransaction s \<rparr>
          \<and> hydrate req s = s"
    by (simp add: hydrate_def context_of_def getExpenses_def getBudget_def
        getLastTransaction_def)
  have h: "expenses (hydrate req s)
             = (case req_expenses req of Some xs \<Rightarrow> xs | None \<Rightarrow> expenses s)"
    by (simp add: hydrate_def setExpensesForRequest_def split: option.splits list.splits)
  have 3: "\<not> (reaches_switch parsed
                \<and> (read_prop parsed ''intent'' = JStr ''log_expense''
                    \<or> read_prop parsed ''intent'' = JStr ''update_last_expense'')) \<longrightarrow>
            expenses (snd (POST ollama clk req s))
              = (case req_expenses req of Some xs \<Rightarrow> xs | None \<Rightarrow> expenses s)"
    unfolding P using dispatch_expenses_frame [of parsed clk "hydrate req s"] h by simp
  have 4: "POST ollama clk (req\<lparr>req_budget := b\<rparr>) s = POST ollama clk req s"
    by (simp add: POST_def hydrate_def)
  have 5: "\<not> (reaches_switch parsed \<and> read_prop parsed ''intent'' = JStr ''set_budget'') \<longrightarrow>
            budget (snd (POST ollama clk req s)) = budget s"
    unfolding P using dispatch_budget_frame [of parsed clk "hydrate req s"]
    by (simp add: hydrate_budget)
  from 1 P have e1: "req_expenses req = Some xs \<longrightarrow>
            context_of (hydrate req s)
              = \<lparr> ctx_expenses = xs, ctx_budget = budget s,
                  ctx_lastTransaction = (case xs of [] \<Rightarrow> None | e # _ \<Rightarrow> Some e) \<rparr>
          \<and> POST ollama clk req s =
              dispatch clk parsed
                (s\<lparr>expenses := xs,
                    lastTransaction := (case xs of [] \<Rightarrow> None | e # _ \<Rightarrow> Some e)\<rparr>)"
    by auto
  from 2 P have e2: "req_expenses req = None \<longrightarrow>
            context_of (hydrate req s)
              = \<lparr> ctx_expenses = expenses s, ctx_budget = budget s,
                  ctx_lastTransaction = lastTransaction s \<rparr>
          \<and> POST ollama clk req s = dispatch clk parsed s"
    by auto
  from e1 e2 3 4 5 show ?thesis
    by (intro conjI)
qed

text \<open>
  The theorem at a failed call to the model, for a request with a list and for a
  request with a budget and no list, both arriving at the three-expense store.
\<close>

theorem POST_hydrates_expenses_only_witness:
  "req_expenses list_request = Some [[(''id'', JStr ''x''), (''category'', JStr ''Food'')]]
   \<and> \<not> reaches_switch JNull
   \<and> expenses (snd (POST (\<lambda>m c. CallFailed) example_clock list_request two_b_store))
       = [[(''id'', JStr ''x''), (''category'', JStr ''Food'')]]
   \<and> budget (snd (POST (\<lambda>m c. CallFailed) example_clock list_request two_b_store))
       = budget two_b_store
   \<and> req_expenses budget_only_request = None
   \<and> POST (\<lambda>m c. CallFailed) example_clock budget_only_request two_b_store =
        dispatch example_clock JNull two_b_store"
proof -
  have h1: "req_expenses list_request = Some [[(''id'', JStr ''x''), (''category'', JStr ''Food'')]]"
    by (simp add: list_request_def)
  have h2: "req_expenses budget_only_request = None"
    by (simp add: budget_only_request_def)
  have n: "\<not> reaches_switch JNull"
    by (simp add: reaches_switch_def read_prop_def)
  have a1: "JNull = callAdvancedOllama (\<lambda>m c. CallFailed) (message list_request)
                     (context_of (hydrate list_request two_b_store))"
    by (simp add: callAdvancedOllama_def)
  have a2: "JNull = callAdvancedOllama (\<lambda>m c. CallFailed) (message budget_only_request)
                     (context_of (hydrate budget_only_request two_b_store))"
    by (simp add: callAdvancedOllama_def)
  note t1 = POST_hydrates_expenses_only [OF a1, where clk = example_clock]
  note t2 = POST_hydrates_expenses_only [OF a2, where clk = example_clock]
  from t1 n have
    "expenses (snd (POST (\<lambda>m c. CallFailed) example_clock list_request two_b_store))
       = (case req_expenses list_request of Some xs \<Rightarrow> xs | None \<Rightarrow> expenses two_b_store)"
    by blast
  with h1 have a:
    "expenses (snd (POST (\<lambda>m c. CallFailed) example_clock list_request two_b_store))
       = [[(''id'', JStr ''x''), (''category'', JStr ''Food'')]]"
    by simp
  from t1 n have b:
    "budget (snd (POST (\<lambda>m c. CallFailed) example_clock list_request two_b_store))
       = budget two_b_store"
    by blast
  from t2 h2 have c:
    "POST (\<lambda>m c. CallFailed) example_clock budget_only_request two_b_store =
        dispatch example_clock JNull two_b_store"
    by blast
  from h1 h2 n a b c show ?thesis
    by simp
qed

text \<open>
  Claim C2, as stated, fails. A request that supplies the budget \<open>{total: 1}\<close> and no
  expense list, arriving at a store that holds three expenses and the budget
  \<open>{total: 50000}\<close>: the model is shown the three stored expenses, and after the
  request the store still holds them and its old budget.
\<close>

theorem POST_keeps_store_counterexample:
  "req_budget budget_only_request = JObj 9 [(''total'', JNum 1)]
   \<and> req_expenses budget_only_request = None
   \<and> ctx_expenses (context_of (hydrate budget_only_request two_b_store))
       = [[(''id'', JStr ''a''), (''amount'', JNum 10)],
          [(''id'', JStr ''b''), (''amount'', JNum 20)],
          [(''id'', JStr ''b''), (''amount'', JNum 30)]]
   \<and> ctx_budget (context_of (hydrate budget_only_request two_b_store))
       = [(''total'', JNum 50000)]
   \<and> snd (POST (\<lambda>m c. CallFailed) example_clock budget_only_request two_b_store)
       = two_b_store
   \<and> budget two_b_store = [(''total'', JNum 50000)]"
  by (simp add: budget_only_request_def two_b_store_def hydrate_def context_of_def
      getExpenses_def getBudget_def getLastTransaction_def POST_def dispatch_def
      callAdvancedOllama_def)

section \<open>The entries endpoint: the shape of the response\<close>

lemma get_absent: "k \<notin> fst ` set ob \<Longrightarrow> get ob k = JUndefined"
  by (simp add: get_def map_of_eq_None_iff [THEN iffD2])

text \<open>The body of every response the dispatch returns, branch by branch.\<close>

lemma dispatch_body_cases:
  assumes "fst (dispatch clk parsed h) = Inr body"
    and "s' = snd (dispatch clk parsed h)"
    and "i = read_prop parsed ''intent''"
    and "r = read_prop parsed ''reply''"
  obtains
    (c_fallback) "\<not> truthy i \<or> read_prop parsed ''execution_status'' = JStr ''ERROR''"
        "body = [(''reply'', JStr reply_not_understood)]"
  | (c_clar) "truthy i" "read_prop parsed ''execution_status'' = JStr ''CLARIFICATION_NEEDED''"
        "body = NextResponse_json [(''reply'', r), (''data'', read_prop parsed ''data'')]"
  | (c_log) "reaches_switch parsed" "i = JStr ''log_expense''"
        "body = NextResponse_json
                   [(''reply'', r), (''updatedExpenses'', expenses_value (expenses s'))]"
  | (c_none) "reaches_switch parsed" "i = JStr ''update_last_expense''"
        "lastTransaction h = None"
        "body = [(''reply'', JStr reply_no_recent_transaction)]"
  | (c_not_found) lt where "reaches_switch parsed" "i = JStr ''update_last_expense''"
        "lastTransaction h = Some lt"
        "\<forall>e \<in> set (expenses h). \<not> has_id (get lt ''id'') e"
        "body = [(''reply'', JStr reply_not_found)]"
  | (c_found) lt where "reaches_switch parsed" "i = JStr ''update_last_expense''"
        "lastTransaction h = Some lt"
        "\<exists>e \<in> set (expenses h). has_id (get lt ''id'') e"
        "body = NextResponse_json
                   [(''reply'', r), (''updatedExpenses'', expenses_value (expenses s'))]"
  | (c_sum) "reaches_switch parsed" "i = JStr ''get_summary''"
        "body = NextResponse_json
                   [(''reply'', r),
                    (''summaryData'', read_prop (read_prop parsed ''data'') ''result'')]"
  | (c_bud) "reaches_switch parsed" "i = JStr ''set_budget''"
        "body = NextResponse_json
                   [(''reply'', r), (''updatedBudget'', budget_value (budget s'))]"
  | (c_adv) "reaches_switch parsed" "i = JStr ''get_advice''"
        "body = NextResponse_json [(''reply'', r)]"
  | (c_other) "reaches_switch parsed" "i \<noteq> JStr ''log_expense''"
        "i \<noteq> JStr ''update_last_expense''" "i \<noteq> JStr ''get_summary''"
        "i \<noteq> JStr ''set_budget''" "i \<noteq> JStr ''get_advice''"
        "body = [(''reply'', JStr reply_not_sure)]"
proof (cases "truthy i \<and> read_prop parsed ''execution_status'' \<noteq> JStr ''ERROR''")
  case False
  then have "dispatch clk parsed h = (Inr [(''reply'', JStr reply_not_understood)], h)"
    using dispatch_no_intent [of parsed clk h] dispatch_error [of parsed clk h] assms(3)
    by auto
  with assms(1) have "body = [(''reply'', JStr reply_not_understood)]"
    by simp
  moreover from False
  have "\<not> truthy i \<or> read_prop parsed ''execution_status'' = JStr ''ERROR''"
    by simp
  ultimately show ?thesis
    by (rule c_fallback [rotated])
next
  case True
  note T = this
  show ?thesis
  proof (cases "read_prop parsed ''execution_status'' = JStr ''CLARIFICATION_NEEDED''")
    case True
    with T dispatch_clarification [of parsed clk h] assms(1,3,4)
    have "body = NextResponse_json [(''reply'', r), (''data'', read_prop parsed ''data'')]"
      by simp
    with T True show ?thesis
      by (intro c_clar) simp_all
  next
    case False
    with T assms(3) have R: "reaches_switch parsed"
      by (simp add: reaches_switch_def)
    from T False assms(3) have D: "dispatch clk parsed h =
       (if i = JStr ''log_expense'' then log_expense clk parsed h
        else if i = JStr ''update_last_expense'' then update_last_expense parsed h
        else if i = JStr ''get_summary'' then get_summary parsed h
        else if i = JStr ''set_budget'' then set_budget parsed h
        else if i = JStr ''get_advice'' then get_advice parsed h
        else (Inr [(''reply'', JStr reply_not_sure)], h))"
      by (simp add: dispatch_proceeds)
    consider (log) "i = JStr ''log_expense''"
      | (upd) "i = JStr ''update_last_expense''"
      | (sum) "i = JStr ''get_summary''"
      | (bud) "i = JStr ''set_budget''"
      | (adv) "i = JStr ''get_advice''"
      | (other) "i \<noteq> JStr ''log_expense''" "i \<noteq> JStr ''update_last_expense''"
          "i \<noteq> JStr ''get_summary''" "i \<noteq> JStr ''set_budget''" "i \<noteq> JStr ''get_advice''"
      by blast
    then show ?thesis
    proof cases
      case log
      with D have L: "dispatch clk parsed h = log_expense clk parsed h"
        by simp
      have nn: "\<not> nullish (read_prop parsed ''data'')"
      proof
        assume "nullish (read_prop parsed ''data'')"
        then have "fst (log_expense clk parsed h) = Inl TypeError"
          by (simp add: log_expense_def)
        with L assms(1) show False
          by simp
      qed
      from assms(1,2,4) have "body = NextResponse_json
          [(''reply'', r), (''updatedExpenses'', expenses_value (expenses s'))]"
        unfolding L log_expense_result [OF nn] by simp
      with R log show ?thesis
        by (intro c_log)
    next
      case upd
      with D have U: "dispatch clk parsed h = update_last_expense parsed h"
        by simp
      show ?thesis
      proof (cases "lastTransaction h")
        case None
        from assms(1) have "body = [(''reply'', JStr reply_no_recent_transaction)]"
          unfolding U update_last_expense_none [OF None] by simp
        with R upd None show ?thesis
          by (intro c_none)
      next
        case (Some lt)
        show ?thesis
        proof (cases "findIndex (has_id (get lt ''id'')) (expenses h)")
          case None
          from assms(1) have b: "body = [(''reply'', JStr reply_not_found)]"
            unfolding U update_last_expense_not_found [OF Some None] by simp
          from None have "\<forall>e \<in> set (expenses h). \<not> has_id (get lt ''id'') e"
            by (simp add: findIndex_None_iff)
          with R upd Some b show ?thesis
            by (intro c_not_found [of lt])
        next
          case (Some k)
          note F = update_last_expense_found [OF \<open>lastTransaction h = Some lt\<close> Some, of parsed]
          from assms(1,2,4) F have b: "body = NextResponse_json
              [(''reply'', r), (''updatedExpenses'', expenses_value (expenses s'))]"
            unfolding U by (metis fst_conv sum.inject(2))
          from findIndex_SomeD [OF Some]
          have "\<exists>e \<in> set (expenses h). has_id (get lt ''id'') e"
            by (metis nth_mem)
          with R upd \<open>lastTransaction h = Some lt\<close> b show ?thesis
            by (intro c_found [of lt])
        qed
      qed
    next
      case sum
      with D have S: "dispatch clk parsed h = get_summary parsed h"
        by simp
      from assms(1,4) have "body = NextResponse_json
          [(''reply'', r), (''summaryData'', read_prop (read_prop parsed ''data'') ''result'')]"
        unfolding S get_summary_result by (simp split: if_splits)
      with R sum show ?thesis
        by (intro c_sum)
    next
      case bud
      with D have B: "dispatch clk parsed h = set_budget parsed h"
        by simp
      have "\<not> (nullish (read_prop parsed ''data'') \<or>
          (truthy (read_prop (read_prop parsed ''data'') ''category'')
            \<and> (\<forall>cs. read_prop (read_prop parsed ''data'') ''category'' \<noteq> JStr cs)))"
      proof
        assume "nullish (read_prop parsed ''data'') \<or>
          (truthy (read_prop (read_prop parsed ''data'') ''category'')
            \<and> (\<forall>cs. read_prop (read_prop parsed ''data'') ''category'' \<noteq> JStr cs))"
        from set_budget_throws [OF this, of h] assms(1) show False
          unfolding B by simp
      qed
      then have rr: "\<not> nullish (read_prop parsed ''data'')"
        "\<not> truthy (read_prop (read_prop parsed ''data'') ''category'')
         \<or> (\<exists>cs. read_prop (read_prop parsed ''data'') ''category'' = JStr cs)"
        by auto
      from assms(1,2,4) have "body = NextResponse_json
          [(''reply'', r), (''updatedBudget'', budget_value (budget s'))]"
        unfolding B set_budget_returns [OF rr] by simp
      with R bud show ?thesis
        by (intro c_bud)
    next
      case adv
      with D assms(1,4) have "body = NextResponse_json [(''reply'', r)]"
        by (simp add: get_advice_def)
      with R adv show ?thesis
        by (intro c_adv)
    next
      case other
      with D assms(1) have "body = [(''reply'', JStr reply_not_sure)]"
        by simp
      with R other show ?thesis
        by (intro c_other)
    qed
  qed
qed
lemma response_other:
  "k' \<noteq> ''reply'' \<Longrightarrow> k' \<noteq> k \<Longrightarrow>
   get (NextResponse_json [(''reply'', r), (k, v)]) k' = JUndefined"
  "k' \<noteq> ''reply'' \<Longrightarrow> get (NextResponse_json [(''reply'', r)]) k' = JUndefined"
  by (auto simp: NextResponse_json_def get_def)

lemma response_keys:
  "(k', b) \<in> set (NextResponse_json [(''reply'', r), (k, v)]) \<Longrightarrow> k' = ''reply'' \<or> k' = k"
  "(k', b) \<in> set (NextResponse_json [(''reply'', r)]) \<Longrightarrow> k' = ''reply''"
  by (auto simp: NextResponse_json_def split: if_splits)

lemma response_get:
  "k \<noteq> ''reply'' \<Longrightarrow> get (NextResponse_json [(''reply'', r), (k, v)]) ''reply'' = stringify r"
  "k \<noteq> ''reply'' \<Longrightarrow> get (NextResponse_json [(''reply'', r), (k, v)]) k = stringify v"
  "get (NextResponse_json [(''reply'', r)]) ''reply'' = stringify r"
  by (auto simp: NextResponse_json_def get_def)

text \<open>
  Claim C5, as amended. Whenever the entries handler returns a response:
  the reply of the body is one of the handler's four fixed messages or the reply value
  of the model's answer, serialised as it is (a string when the model gave a string,
  absent when it gave none). The body carries \<open>updatedExpenses\<close> only for the intents
  log_expense and update_last_expense, \<open>updatedBudget\<close> only for set_budget and
  \<open>summaryData\<close> only for get_summary, hence at most one of the three; an updated list
  or budget it carries is the one the store holds after the request.
  Without a truthy intent, or with the execution status ERROR, the body is the fallback
  reply alone; with a truthy intent and the status CLARIFICATION_NEEDED it is the model's
  reply and data, whatever the intent. For an answer that reaches the switch: a
  log_expense response is the reply and the list after the addition; an
  update_last_expense response is the reply and the updated list when there is a last
  transaction whose identifier is found in the list, the fixed reply
  \<open>reply_no_recent_transaction\<close> alone when there is no last transaction, and the fixed
  reply \<open>reply_not_found\<close> alone otherwise; a set_budget response is the reply and the
  new budget map; a get_summary response is the reply and the result of the model's
  data as \<open>summaryData\<close>, which is absent when the data has no result; a get_advice
  response is the reply alone; for any other intent the body is the fixed reply
  \<open>reply_not_sure\<close> alone.
\<close>

theorem POST_response_shape:
  assumes "parsed = callAdvancedOllama ollama (message req) (context_of (hydrate req s))"
    and "fst (POST ollama clk req s) = Inr body"
    and "s' = snd (POST ollama clk req s)"
    and "i = read_prop parsed ''intent''"
    and "r = read_prop parsed ''reply''"
  shows "get body ''reply'' \<in>
           {stringify r, JStr reply_not_understood,
            JStr reply_no_recent_transaction, JStr reply_not_found, JStr reply_not_sure}
       \<and> (''updatedExpenses'' \<in> fst ` set body \<longrightarrow>
            i = JStr ''log_expense'' \<or> i = JStr ''update_last_expense'')
       \<and> (''updatedBudget'' \<in> fst ` set body \<longrightarrow> i = JStr ''set_budget'')
       \<and> (''summaryData'' \<in> fst ` set body \<longrightarrow> i = JStr ''get_summary'')
       \<and> get body ''updatedExpenses'' \<in> {JUndefined, stringify (expenses_value (expenses s'))}
       \<and> get body ''updatedBudget'' \<in> {JUndefined, stringify (budget_value (budget s'))}
       \<and> (\<not> truthy i \<or> read_prop parsed ''execution_status'' = JStr ''ERROR'' \<longrightarrow>
            body = [(''reply'', JStr reply_not_understood)])
       \<and> (truthy i \<and> read_prop parsed ''execution_status'' = JStr ''CLARIFICATION_NEEDED'' \<longrightarrow>
            body = NextResponse_json [(''reply'', r), (''data'', read_prop parsed ''data'')])
       \<and> (reaches_switch parsed \<and> i = JStr ''log_expense'' \<longrightarrow>
            body = NextResponse_json
                     [(''reply'', r), (''updatedExpenses'', expenses_value (expenses s'))]
            \<and> get body ''updatedExpenses'' = stringify (expenses_value (expenses s')))
       \<and> (reaches_switch parsed \<and> i = JStr ''update_last_expense'' \<longrightarrow>
            (if \<exists>lt. lastTransaction (hydrate req s) = Some lt
                    \<and> (\<exists>e \<in> set (expenses (hydrate req s)). has_id (get lt ''id'') e)
             then body = NextResponse_json
                     [(''reply'', r), (''updatedExpenses'', expenses_value (expenses s'))]
                  \<and> get body ''updatedExpenses'' = stringify (expenses_value (expenses s'))
             else if lastTransaction (hydrate req s) = None
             then body = [(''reply'', JStr reply_no_recent_transaction)]
             else body = [(''reply'', JStr reply_not_found)]))
       \<and> (reaches_switch parsed \<and> i = JStr ''set_budget'' \<longrightarrow>
            body = NextResponse_json
                     [(''reply'', r), (''updatedBudget'', budget_value (budget s'))]
            \<and> get body ''updatedBudget'' = stringify (budget_value (budget s')))
       \<and> (reaches_switch parsed \<and> i = JStr ''get_summary'' \<longrightarrow>
            body = NextResponse_json
                     [(''reply'', r),
                      (''summaryData'', read_prop (read_prop parsed ''data'') ''result'')]
            \<and> get body ''summaryData''
                = stringify (read_prop (read_prop parsed ''data'') ''result''))
       \<and> (reaches_switch parsed \<and> i = JStr ''get_advice'' \<longrightarrow>
            body = NextResponse_json [(''reply'', r)])
       \<and> (reaches_switch parsed \<and> i \<noteq> JStr ''log_expense''
            \<and> i \<noteq> JStr ''update_last_expense'' \<and> i \<noteq> JStr ''get_summary''
            \<and> i \<noteq> JStr ''set_budget'' \<and> i \<noteq> JStr ''get_advice'' \<longrightarrow>
            body = [(''reply'', JStr reply_not_sure)])"
proof -
  let ?h = "hydrate req s"
  have P: "POST ollama clk req s = dispatch clk parsed ?h"
    using assms(1) by (simp add: POST_def Let_def)
  from assms(2) have F: "fst (dispatch clk parsed ?h) = Inr body"
    unfolding P .
  from assms(3) have S: "s' = snd (dispatch clk parsed ?h)"
    unfolding P .
  have rs: "reaches_switch parsed
      \<longleftrightarrow> truthy i \<and> read_prop parsed ''execution_status'' \<noteq> JStr ''ERROR''
          \<and> read_prop parsed ''execution_status'' \<noteq> JStr ''CLARIFICATION_NEEDED''"
    using assms(4) by (simp add: reaches_switch_def)
  from F S assms(4,5) show ?thesis
  proof (cases rule: dispatch_body_cases)
    case c_fallback
    then show ?thesis
      by (auto simp: get_def rs)
  next
    case c_clar
    then show ?thesis
      by (auto simp: rs response_get response_other dest: response_keys)
  next
    case c_log
    then show ?thesis
      by (auto simp: rs response_get response_other dest: response_keys)
  next
    case c_none
    then show ?thesis
      by (auto simp: rs get_def)
  next
    case (c_not_found lt)
    then show ?thesis
      by (auto simp: rs get_def)
  next
    case (c_found lt)
    then show ?thesis
      by (auto simp: rs response_get response_other dest: response_keys)
  next
    case c_sum
    then show ?thesis
      by (auto simp: rs response_get response_other dest: response_keys)
  next
    case c_bud
    then show ?thesis
      by (auto simp: rs response_get response_other dest: response_keys)
  next
    case c_adv
    then show ?thesis
      by (auto simp: rs response_get response_other dest: response_keys)
  next
    case c_other
    then show ?thesis
      by (auto simp: rs get_def)
  qed
qed
text \<open>
  The theorem at a log_expense answer without a date, for a request that carries a
  list of one expense.
\<close>

theorem POST_response_shape_witness:
  "fst (POST (\<lambda>m c. Parsed coffee_answer) example_clock list_request initial_store)
     = Inr [(''reply'', JStr ''Logged.''),
            (''updatedExpenses'',
             JArr 0 [JObj 0 [(''id'', JStr ''1700000000000''), (''amount'', JNum 80),
                         (''category'', JStr ''Coffee''), (''date'', JStr ''02-11-2026'')],
                   JObj 0 [(''id'', JStr ''x''), (''category'', JStr ''Food'')]])]
   \<and> get [(''reply'', JStr ''Logged.''),
            (''updatedExpenses'',
             JArr 0 [JObj 0 [(''id'', JStr ''1700000000000''), (''amount'', JNum 80),
                         (''category'', JStr ''Coffee''), (''date'', JStr ''02-11-2026'')],
                   JObj 0 [(''id'', JStr ''x''), (''category'', JStr ''Food'')]])]
        ''updatedExpenses''
     = stringify (expenses_value (expenses (snd (POST (\<lambda>m c. Parsed coffee_answer)
                                                   example_clock list_request initial_store))))
   \<and> get [(''reply'', JStr ''Logged.''),
            (''updatedExpenses'',
             JArr 0 [JObj 0 [(''id'', JStr ''1700000000000''), (''amount'', JNum 80),
                         (''category'', JStr ''Coffee''), (''date'', JStr ''02-11-2026'')],
                   JObj 0 [(''id'', JStr ''x''), (''category'', JStr ''Food'')]])]
        ''reply''
     \<in> {stringify (read_prop coffee_answer ''reply''), JStr reply_not_understood,
         JStr reply_no_recent_transaction, JStr reply_not_found, JStr reply_not_sure}"
proof -
  let ?body = "[(''reply'', JStr ''Logged.''),
            (''updatedExpenses'',
             JArr 0 [JObj 0 [(''id'', JStr ''1700000000000''), (''amount'', JNum 80),
                         (''category'', JStr ''Coffee''), (''date'', JStr ''02-11-2026'')],
                   JObj 0 [(''id'', JStr ''x''), (''category'', JStr ''Food'')]])]"
  have a: "coffee_answer = callAdvancedOllama (\<lambda>m c. Parsed coffee_answer)
             (message list_request) (context_of (hydrate list_request initial_store))"
    by (simp add: callAdvancedOllama_def)
  have b: "read_prop coffee_answer ''intent'' = JStr ''log_expense''"
    by (simp add: coffee_answer_def read_prop_def get_def)
  have c: "read_prop coffee_answer ''execution_status'' \<noteq> JStr ''ERROR''"
    by (simp add: coffee_answer_def read_prop_def get_def)
  have d: "read_prop coffee_answer ''execution_status'' \<noteq> JStr ''CLARIFICATION_NEEDED''"
    by (simp add: coffee_answer_def read_prop_def get_def)
  have e: "\<not> nullish (read_prop coffee_answer ''data'')"
    by (simp add: coffee_answer_def read_prop_def get_def nullish_def)
  have P: "POST (\<lambda>m c. Parsed coffee_answer) example_clock list_request initial_store
           = log_expense example_clock coffee_answer (hydrate list_request initial_store)"
    using dispatch_log_expense [OF b c d] by (simp add: POST_def Let_def callAdvancedOllama_def)
  have h: "format_ddMMyyyy example_clock = ''02-11-2026''"
    by (simp add: format_ddMMyyyy_def addLeadingZeros_def padStart_def toString_nat.simps
        digit_char_def example_clock_def)
  have n: "toString_nat (Date_now example_clock) = ''1700000000000''"
    by (simp add: toString_nat.simps digit_char_def example_clock_def)
  have f: "fst (POST (\<lambda>m c. Parsed coffee_answer) example_clock list_request initial_store)
     = Inr ?body"
    unfolding P log_expense_result [OF e]
    by (simp add: newExpense_def h n NextResponse_json_def expenses_value_def)
      (simp add: coffee_answer_def read_prop_def get_def hydrate_def list_request_def
        setExpensesForRequest_def)
  have g: "reaches_switch coffee_answer"
    using b c d by (simp add: reaches_switch_def)
  note t = POST_response_shape [OF a f refl refl refl]
  from t have 1: "get ?body ''reply''
     \<in> {stringify (read_prop coffee_answer ''reply''), JStr reply_not_understood,
         JStr reply_no_recent_transaction, JStr reply_not_found, JStr reply_not_sure}"
    by (rule conjunct1)
  from t b g have 2: "get ?body ''updatedExpenses''
     = stringify (expenses_value (expenses (snd (POST (\<lambda>m c. Parsed coffee_answer)
                                                   example_clock list_request initial_store))))"
    by blast
  from f 1 2 show ?thesis
    by (intro conjI)
qed

text \<open>
  Claim C5, as stated, fails. With the intent update_last_expense and no last
  transaction in the store the body is the fixed reply alone, and with the intent
  log_expense and the execution status CLARIFICATION_NEEDED it is the model's reply
  and data: neither carries an updated expense list.
\<close>

theorem POST_response_shape_counterexample:
  "read_prop update_last_answer ''intent'' = JStr ''update_last_expense''
   \<and> fst (POST (\<lambda>m c. Parsed update_last_answer) example_clock budget_only_request
             initial_store)
     = Inr [(''reply'', JStr reply_no_recent_transaction)]
   \<and> read_prop clarification_answer ''intent'' = JStr ''log_expense''
   \<and> fst (POST (\<lambda>m c. Parsed clarification_answer) example_clock list_request initial_store)
     = Inr [(''reply'', JStr ''Which category?''), (''data'', JObj 0 [(''amount'', JNum 250)])]"
proof -
  have b: "read_prop update_last_answer ''intent'' = JStr ''update_last_expense''"
    by (simp add: update_last_answer_def read_prop_def get_def)
  then have t: "truthy (read_prop update_last_answer ''intent'')"
    by simp
  have c: "read_prop update_last_answer ''execution_status'' \<noteq> JStr ''ERROR''"
    by (simp add: update_last_answer_def read_prop_def get_def)
  have d: "read_prop update_last_answer ''execution_status'' \<noteq> JStr ''CLARIFICATION_NEEDED''"
    by (simp add: update_last_answer_def read_prop_def get_def)
  have l: "lastTransaction (hydrate budget_only_request initial_store) = None"
    by (simp add: hydrate_def budget_only_request_def initial_store_def)
  have 1: "fst (POST (\<lambda>m c. Parsed update_last_answer) example_clock budget_only_request
             initial_store)
     = Inr [(''reply'', JStr reply_no_recent_transaction)]"
    by (simp add: POST_def Let_def callAdvancedOllama_def dispatch_proceeds [OF t c d] b
        update_last_expense_none [OF l])
  have b': "read_prop clarification_answer ''intent'' = JStr ''log_expense''"
    by (simp add: clarification_answer_def read_prop_def get_def)
  then have t': "truthy (read_prop clarification_answer ''intent'')"
    by simp
  have c': "read_prop clarification_answer ''execution_status'' = JStr ''CLARIFICATION_NEEDED''"
    by (simp add: clarification_answer_def read_prop_def get_def)
  have 2: "fst (POST (\<lambda>m c. Parsed clarification_answer) example_clock list_request
             initial_store)
     = Inr [(''reply'', JStr ''Which category?''), (''data'', JObj 0 [(''amount'', JNum 250)])]"
    unfolding POST_def Let_def callAdvancedOllama_def
    by (simp add: dispatch_clarification [OF t' c'])
      (simp add: clarification_answer_def read_prop_def get_def NextResponse_json_def)
  from b 1 b' 2 show ?thesis
    by simp
qed

text \<open>
  An identifier that is an object: the client's expense holds the object with
  reference \<open>5\<close>, the handler finds it by that reference, and the response carries
  the updated list.
\<close>

lemma update_last_expense_object_id:
  "fst (POST (\<lambda>m c. Parsed update_last_answer) example_clock
          \<lparr> message = JStr ''250'',
            req_expenses = Some [[(''id'', JObj 5 [(''n'', JNum 1)])]],
            req_budget = JUndefined \<rparr> initial_store)
     = Inr [(''reply'', JStr ''Updated.''),
            (''updatedExpenses'',
             JArr 0 [JObj 0 [(''id'', JObj 0 [(''n'', JNum 1)]), (''amount'', JNum 250)]])]"
proof -
  let ?req = "\<lparr> message = JStr ''250'',
            req_expenses = Some [[(''id'', JObj 5 [(''n'', JNum 1)])]],
            req_budget = JUndefined \<rparr>"
  let ?h = "hydrate ?req initial_store"
  have i: "read_prop update_last_answer ''intent'' = JStr ''update_last_expense''"
    by (simp add: update_last_answer_def read_prop_def get_def)
  then have t: "truthy (read_prop update_last_answer ''intent'')"
    by simp
  have c: "read_prop update_last_answer ''execution_status'' \<noteq> JStr ''ERROR''"
    by (simp add: update_last_answer_def read_prop_def get_def)
  have d: "read_prop update_last_answer ''execution_status'' \<noteq> JStr ''CLARIFICATION_NEEDED''"
    by (simp add: update_last_answer_def read_prop_def get_def)
  have P: "POST (\<lambda>m c. Parsed update_last_answer) example_clock ?req initial_store
           = update_last_expense update_last_answer ?h"
    by (simp add: POST_def Let_def callAdvancedOllama_def dispatch_proceeds [OF t c d] i)
  have l: "lastTransaction ?h = Some [(''id'', JObj 5 [(''n'', JNum 1)])]"
    by (simp add: hydrate_def setExpensesForRequest_def)
  have f: "findIndex (has_id (get [(''id'', JObj 5 [(''n'', JNum 1)])] ''id'')) (expenses ?h)
             = Some 0"
    by (simp add: hydrate_def setExpensesForRequest_def has_id_def get_def)
  have s: "expenses (snd (update_last_expense update_last_answer ?h))
             = [[(''id'', JObj 5 [(''n'', JNum 1)]), (''amount'', JNum 250)]]"
    unfolding update_last_expense_found_store [OF l f]
    by (simp add: hydrate_def setExpensesForRequest_def update_last_answer_def
        read_prop_def get_def spread_def)
  show ?thesis
    unfolding P
    by (subst update_last_expense_found [OF l f],
        simp add: s NextResponse_json_def expenses_value_def)
      (simp add: update_last_answer_def read_prop_def get_def)
qed

section \<open>Categories of the records held and returned\<close>

lemma valid_category_label: "valid_category e \<longleftrightarrow> label_ok (get e ''category'')"
  by (simp add: valid_category_def label_ok_def)

lemma valid_category_spread:
  assumes "valid_category e"
    and "case map_of u ''category'' of None \<Rightarrow> True | Some v \<Rightarrow> label_ok v"
  shows "valid_category (spread e u)"
  using assms by (simp add: valid_category_label get_spread split: option.splits)

lemma map_of_serialised:
  "map_of e k = Some v \<Longrightarrow> v \<noteq> JUndefined \<Longrightarrow>
   map_of (map (\<lambda>kv. (fst kv, stringify (snd kv))) (filter (\<lambda>kv. snd kv \<noteq> JUndefined) e)) k
     = Some (stringify v)"
  by (induction e) (auto split: if_splits)

lemma valid_category_serialised:
  assumes "valid_category e"
  shows "valid_category
           (map (\<lambda>kv. (fst kv, stringify (snd kv))) (filter (\<lambda>kv. snd kv \<noteq> JUndefined) e))"
proof -
  from assms obtain c where c: "get e ''category'' = JStr c" "c \<in> set validCategories"
    by (auto simp: valid_category_def split: json.splits)
  then have "map_of e ''category'' = Some (JStr c)"
    by (auto simp: get_def split: option.splits)
  from map_of_serialised [OF this] c(2) show ?thesis
    by (simp add: valid_category_def get_def)
qed

lemma returned_valid_expenses:
  "list_all valid_category es \<Longrightarrow> returned_valid (stringify (expenses_value es))"
  by (simp add: returned_valid_def expenses_value_def list_all_iff valid_category_serialised)

lemma dispatch_updatedExpenses:
  assumes "fst (dispatch clk parsed h) = Inr body"
  shows "get body ''updatedExpenses''
           \<in> {JUndefined, stringify (expenses_value (expenses (snd (dispatch clk parsed h))))}"
  using assms refl refl refl
proof (cases rule: dispatch_body_cases)
  case c_fallback
  then show ?thesis by (simp add: get_def)
next
  case c_clar
  then show ?thesis by (simp add: response_other)
next
  case c_log
  then show ?thesis by (simp add: response_get)
next
  case c_none
  then show ?thesis by (simp add: get_def)
next
  case (c_not_found lt)
  then show ?thesis by (simp add: get_def)
next
  case (c_found lt)
  then show ?thesis by (simp add: response_get)
next
  case c_sum
  then show ?thesis by (simp add: response_other)
next
  case c_bud
  then show ?thesis by (simp add: response_other)
next
  case c_adv
  then show ?thesis by (simp add: response_other)
next
  case c_other
  then show ?thesis by (simp add: get_def)
qed

lemma dispatch_valid_store:
  assumes "valid_store h" and "model_categories_ok parsed"
  shows "valid_store (snd (dispatch clk parsed h))"
proof -
  let ?d = "read_prop parsed ''data''"
  from dispatch_store_cases [of clk parsed h]
  consider (same) "snd (dispatch clk parsed h) = h"
    | (log) "read_prop parsed ''intent'' = JStr ''log_expense''"
        "snd (dispatch clk parsed h)
           = h\<lparr>expenses := newExpense clk ?d # expenses h,
               lastTransaction := Some (newExpense clk ?d)\<rparr>"
    | (upd) lt k where "read_prop parsed ''intent'' = JStr ''update_last_expense''"
        "lastTransaction h = Some lt"
        "findIndex (has_id (get lt ''id'')) (expenses h) = Some k"
        "snd (dispatch clk parsed h)
           = h\<lparr>expenses := (expenses h)[k := spread (expenses h ! k) (own_props ?d)],
               lastTransaction := Some (spread lt (own_props ?d))\<rparr>"
    | (bud) "snd (dispatch clk parsed h)
           = h\<lparr>budget := assign_prop (budget h)
                 (budget_key (read_prop ?d ''category'')) (read_prop ?d ''amount'')\<rparr>"
    by auto
  then show ?thesis
  proof cases
    case same
    with assms(1) show ?thesis by simp
  next
    case log
    with assms(2) have "valid_category (newExpense clk ?d)"
      by (simp add: model_categories_ok_def valid_category_label get_newExpense)
    with assms(1) log(2) show ?thesis
      by (simp add: valid_store_def)
  next
    case upd
    from upd(1) assms(2)
    have u: "case map_of (own_props ?d) ''category'' of None \<Rightarrow> True | Some v \<Rightarrow> label_ok v"
      by (simp add: model_categories_ok_def)
    from findIndex_SomeD [OF upd(3)] have k: "k < length (expenses h)"
      by simp
    with assms(1) have "valid_category (expenses h ! k)"
      by (simp add: valid_store_def list_all_length)
    from valid_category_spread [OF this u]
    have 1: "valid_category (spread (expenses h ! k) (own_props ?d))" .
    from assms(1) upd(2) have "valid_category lt"
      by (simp add: valid_store_def)
    from valid_category_spread [OF this u]
    have 2: "valid_category (spread lt (own_props ?d))" .
    from assms(1) have "list_all valid_category (expenses h)"
      by (simp add: valid_store_def)
    with 1 have "list_all valid_category
        ((expenses h)[k := spread (expenses h ! k) (own_props ?d)])"
      by (auto simp: list_all_iff dest!: set_update_subset_insert [THEN subsetD])
    with 2 upd(4) show ?thesis
      by (simp add: valid_store_def)
  next
    case bud
    with assms(1) show ?thesis
      by (simp add: valid_store_def)
  qed
qed

text \<open>
  Claim C3, as amended. The endpoint does not check categories. It stores a client's
  list as it is sent; for an answer that reaches the switch with the intent log_expense
  and its data present it puts a new expense with the category of the data, whatever
  that value is, in front of the list; for an answer that reaches the switch with the
  intent update_last_expense, a last transaction and a match for its identifier, it
  gives the first match the category of the data, if the data have one. Hence: if every
  record of the store the request is handled on (the client's list when one is sent,
  and the last transaction) has one of the nine labels, and the model's answer has,
  for the intent log_expense, one of the nine labels as the category of its data and,
  for the intent update_last_expense, no category among its data or one of the nine
  labels, then every record the store holds after the request has one of the nine
  labels, and so has every record of the list the response carries and of the list a
  later \<open>GET\<close> returns.
\<close>

theorem categories_preserved:
  assumes "parsed = callAdvancedOllama ollama (message req) (context_of (hydrate req s))"
    and "s' = snd (POST ollama clk req s)"
    and "d = read_prop parsed ''data''"
  shows "(valid_store (hydrate req s) \<and> model_categories_ok parsed \<longrightarrow>
            valid_store s'
            \<and> (\<forall>body. fst (POST ollama clk req s) = Inr body \<longrightarrow>
                  returned_valid (get body ''updatedExpenses''))
            \<and> returned_valid (get (GET s') ''expenses''))
       \<and> (reaches_switch parsed \<and> read_prop parsed ''intent'' = JStr ''log_expense''
            \<and> \<not> nullish d \<longrightarrow>
            (\<exists>e. expenses s' = e # expenses (hydrate req s)
                 \<and> get e ''category'' = read_prop d ''category''))
       \<and> (\<forall>lt k v. reaches_switch parsed
            \<and> read_prop parsed ''intent'' = JStr ''update_last_expense''
            \<and> lastTransaction (hydrate req s) = Some lt
            \<and> findIndex (has_id (get lt ''id'')) (expenses (hydrate req s)) = Some k
            \<and> map_of (own_props d) ''category'' = Some v \<longrightarrow>
            get (expenses s' ! k) ''category'' = v)
       \<and> (req_expenses req = Some xs \<longrightarrow> expenses (hydrate req s) = xs)"
proof -
  let ?h = "hydrate req s"
  have P: "POST ollama clk req s = dispatch clk parsed ?h"
    using assms(1) by (simp add: POST_def Let_def)
  have S: "s' = snd (dispatch clk parsed ?h)"
    using assms(2) unfolding P .
  have A: "valid_store ?h \<and> model_categories_ok parsed \<longrightarrow>
            valid_store s'
            \<and> (\<forall>body. fst (POST ollama clk req s) = Inr body \<longrightarrow>
                  returned_valid (get body ''updatedExpenses''))
            \<and> returned_valid (get (GET s') ''expenses'')"
  proof
    assume v: "valid_store ?h \<and> model_categories_ok parsed"
    then have 1: "valid_store s'"
      unfolding S by (simp add: dispatch_valid_store)
    then have l: "list_all valid_category (expenses s')"
      by (simp add: valid_store_def)
    have 2: "\<forall>body. fst (POST ollama clk req s) = Inr body \<longrightarrow>
                  returned_valid (get body ''updatedExpenses'')"
    proof (intro allI impI)
      fix body
      assume "fst (POST ollama clk req s) = Inr body"
      then have "fst (dispatch clk parsed ?h) = Inr body"
        unfolding P .
      from dispatch_updatedExpenses [OF this] S
      have "get body ''updatedExpenses'' = JUndefined
            \<or> get body ''updatedExpenses'' = stringify (expenses_value (expenses s'))"
        by simp
      with returned_valid_expenses [OF l] show "returned_valid (get body ''updatedExpenses'')"
        by (auto simp: returned_valid_def)
    qed
    have "get (GET s') ''expenses'' = stringify (expenses_value (expenses s'))"
      by (simp add: GET_def NextResponse_json_def get_def getExpenses_def expenses_value_def)
    with returned_valid_expenses [OF l] have 3: "returned_valid (get (GET s') ''expenses'')"
      by simp
    from 1 2 3 show "valid_store s'
            \<and> (\<forall>body. fst (POST ollama clk req s) = Inr body \<longrightarrow>
                  returned_valid (get body ''updatedExpenses''))
            \<and> returned_valid (get (GET s') ''expenses'')"
      by (intro conjI)
  qed
  have B: "reaches_switch parsed \<and> read_prop parsed ''intent'' = JStr ''log_expense''
            \<and> \<not> nullish d \<longrightarrow>
            (\<exists>e. expenses s' = e # expenses ?h
                 \<and> get e ''category'' = read_prop d ''category'')"
  proof
    assume a: "reaches_switch parsed \<and> read_prop parsed ''intent'' = JStr ''log_expense''
            \<and> \<not> nullish d"
    then have "dispatch clk parsed ?h = log_expense clk parsed ?h"
      by (simp add: reaches_switch_def dispatch_log_expense)
    with a assms(3) have "expenses s' = newExpense clk d # expenses ?h"
      unfolding S by (simp add: log_expense_result)
    then show "\<exists>e. expenses s' = e # expenses ?h
                 \<and> get e ''category'' = read_prop d ''category''"
      by (simp add: get_newExpense)
  qed
  have C: "\<forall>lt k v. reaches_switch parsed
            \<and> read_prop parsed ''intent'' = JStr ''update_last_expense''
            \<and> lastTransaction ?h = Some lt
            \<and> findIndex (has_id (get lt ''id'')) (expenses ?h) = Some k
            \<and> map_of (own_props d) ''category'' = Some v \<longrightarrow>
            get (expenses s' ! k) ''category'' = v"
  proof (intro allI impI)
    fix lt k v
    assume a: "reaches_switch parsed
            \<and> read_prop parsed ''intent'' = JStr ''update_last_expense''
            \<and> lastTransaction ?h = Some lt
            \<and> findIndex (has_id (get lt ''id'')) (expenses ?h) = Some k
            \<and> map_of (own_props d) ''category'' = Some v"
    then have "dispatch clk parsed ?h = update_last_expense parsed ?h"
      by (simp add: reaches_switch_def dispatch_proceeds)
    moreover from a have l: "lastTransaction ?h = Some lt"
      and f: "findIndex (has_id (get lt ''id'')) (expenses ?h) = Some k"
      by simp_all
    ultimately have "expenses s'
        = (expenses ?h)[k := spread (expenses ?h ! k) (own_props d)]"
      unfolding S assms(3) by (simp add: update_last_expense_found_store [OF l f])
    with findIndex_SomeD [OF f] a show "get (expenses s' ! k) ''category'' = v"
      by (simp add: get_spread)
  qed
  have D: "req_expenses req = Some xs \<longrightarrow> expenses ?h = xs"
    by (simp add: hydrate_def setExpensesForRequest_def split: list.splits)
  from A B C D show ?thesis
    by (intro conjI)
qed

text \<open>
  The theorem at a log_expense answer with the category Coffee, for a request whose
  list holds one expense of the category Food.
\<close>

theorem categories_preserved_witness:
  "valid_store (hydrate list_request initial_store)
   \<and> model_categories_ok coffee_answer
   \<and> valid_store (snd (POST (\<lambda>m c. Parsed coffee_answer) example_clock list_request
                          initial_store))
   \<and> returned_valid
       (get (GET (snd (POST (\<lambda>m c. Parsed coffee_answer) example_clock list_request
                          initial_store))) ''expenses'')
   \<and> map (\<lambda>e. get e ''category'')
       (expenses (snd (POST (\<lambda>m c. Parsed coffee_answer) example_clock list_request
                          initial_store)))
     = [JStr ''Coffee'', JStr ''Food'']"
proof -
  let ?s' = "snd (POST (\<lambda>m c. Parsed coffee_answer) example_clock list_request initial_store)"
  have a: "coffee_answer = callAdvancedOllama (\<lambda>m c. Parsed coffee_answer)
             (message list_request) (context_of (hydrate list_request initial_store))"
    by (simp add: callAdvancedOllama_def)
  have b: "read_prop coffee_answer ''intent'' = JStr ''log_expense''"
    by (simp add: coffee_answer_def read_prop_def get_def)
  have r: "reaches_switch coffee_answer"
    by (simp add: reaches_switch_def coffee_answer_def read_prop_def get_def)
  have e: "\<not> nullish (read_prop coffee_answer ''data'')"
    by (simp add: coffee_answer_def read_prop_def get_def nullish_def)
  have c: "read_prop (read_prop coffee_answer ''data'') ''category'' = JStr ''Coffee''"
    by (simp add: coffee_answer_def read_prop_def get_def)
  have h: "expenses (hydrate list_request initial_store)
             = [[(''id'', JStr ''x''), (''category'', JStr ''Food'')]]"
    by (simp add: hydrate_def list_request_def setExpensesForRequest_def)
  have f: "valid_store (hydrate list_request initial_store)"
    by (simp add: valid_store_def hydrate_def list_request_def setExpensesForRequest_def
        valid_category_def get_def validCategories_def)
  have g: "model_categories_ok coffee_answer"
    by (simp add: model_categories_ok_def b c label_ok_def validCategories_def)
  note t = categories_preserved [OF a refl refl, where clk = example_clock]
  from t f g have 1: "valid_store ?s'" and 2: "returned_valid (get (GET ?s') ''expenses'')"
    by simp_all
  from t r b e obtain x where "expenses ?s' = x # expenses (hydrate list_request initial_store)"
      "get x ''category'' = read_prop (read_prop coffee_answer ''data'') ''category''"
    by auto
  then have 3: "map (\<lambda>e. get e ''category'') (expenses ?s') = [JStr ''Coffee'', JStr ''Food'']"
    by (simp add: h c get_def)
  from f g 1 2 3 show ?thesis
    by (intro conjI)
qed

text \<open>
  Claim C3, as stated, fails. The model answers a log_expense request with the
  category \<open>Groceries\<close>; the new expense is stored and returned with that category,
  which is none of the nine labels.
\<close>

theorem log_expense_category_counterexample:
  "expenses (snd (POST (\<lambda>m c. Parsed groceries_answer) example_clock list_request
                    initial_store))
     = [[(''id'', JStr ''1700000000000''), (''amount'', JNum 120),
         (''category'', JStr ''Groceries''), (''note'', JUndefined),
         (''date'', JStr ''2024-01-05'')],
        [(''id'', JStr ''x''), (''category'', JStr ''Food'')]]
   \<and> ''Groceries'' \<notin> set validCategories
   \<and> \<not> list_all valid_category
         (expenses (snd (POST (\<lambda>m c. Parsed groceries_answer) example_clock list_request
                           initial_store)))"
proof -
  have b: "read_prop groceries_answer ''intent'' = JStr ''log_expense''"
    by (simp add: groceries_answer_def read_prop_def get_def)
  have c: "read_prop groceries_answer ''execution_status'' \<noteq> JStr ''ERROR''"
    by (simp add: groceries_answer_def read_prop_def get_def)
  have d: "read_prop groceries_answer ''execution_status'' \<noteq> JStr ''CLARIFICATION_NEEDED''"
    by (simp add: groceries_answer_def read_prop_def get_def)
  have e: "\<not> nullish (read_prop groceries_answer ''data'')"
    by (simp add: groceries_answer_def read_prop_def get_def nullish_def)
  have P: "POST (\<lambda>m c. Parsed groceries_answer) example_clock list_request initial_store
           = log_expense example_clock groceries_answer (hydrate list_request initial_store)"
    using dispatch_log_expense [OF b c d] by (simp add: POST_def Let_def callAdvancedOllama_def)
  have ex: "expenses (snd (POST (\<lambda>m c. Parsed groceries_answer) example_clock list_request
                    initial_store))
     = [[(''id'', JStr ''1700000000000''), (''amount'', JNum 120),
         (''category'', JStr ''Groceries''), (''note'', JUndefined),
         (''date'', JStr ''2024-01-05'')],
        [(''id'', JStr ''x''), (''category'', JStr ''Food'')]]"
    unfolding P log_expense_result [OF e]
    by (simp add: groceries_answer_def read_prop_def get_def example_clock_def newExpense_def
        toString_nat.simps digit_char_def hydrate_def list_request_def
        setExpensesForRequest_def)
  show ?thesis
    unfolding ex by (simp add: valid_category_def get_def validCategories_def)
qed

end
